theory Spec2Isabelle
  imports Complex_Main "HOL-Library.Word"
begin

section \<open>Common types\<close>

text \<open>
  An audio frame is an \<open>Int16Array\<close>: a list of 16-bit samples. JavaScript numbers that
  hold thresholds and durations are modelled as reals (comparisons only; NaN is outside
  the model), clock readings of \<open>Date.now()\<close> as integers (milliseconds).
\<close>

type_synonym sample = "16 word"

type_synonym frame = "sample list"

datatype error =
    VADError string
  | WakeWordError string
  | WakeWordModelError string
  | ChannelError string
  | RangeError
  | TypeError
  | ExternalError string

section \<open>Voice activity detection (src/src/vad/index.ts)\<close>

text \<open>
  The class \<open>VoiceActivityDetector\<close>. Its methods keep their names; where another class
  of the repository has a method of the same name (\<open>constructor\<close>, \<open>create\<close>,
  \<open>initialize\<close>, \<open>release\<close>), the name carries the prefix \<open>vad_\<close> here, \<open>ww_\<close> for the
  wake word detector and \<open>ch_\<close> for the emulated channel. The calls of the external
  package \<open>avr-vad\<close> return normally, except where the source itself handles their
  failure.
\<close>

datatype VADStatus = Continue | End | Timeout

record VADResult =
  status :: VADStatus
  probability :: real
  isSpeech :: bool
  audio :: "frame option"

record VoiceActivityDetectorOptions =
  speechThreshold_opt :: "real option"
  silenceThreshold_opt :: "real option"
  silenceDuration_opt :: "real option"
  maxRecordingDuration_opt :: "real option"
  minSpeechDuration_opt :: "real option"
  inputSampleRate_opt :: "real option"

text \<open>
  The fields of the class. \<open>vad\<close> tells whether the handle of the underlying
  \<open>RealTimeVAD\<close> is set (\<open>False\<close> is \<open>null\<close>).
\<close>

record VoiceActivityDetector =
  vad :: bool
  speechThreshold :: real
  silenceThreshold :: real
  silenceDuration :: real
  maxRecordingDuration :: real
  minSpeechDuration :: real
  inputSampleRate :: real
  audioBuffer :: "frame list"
  silenceStartTime :: "int option"
  recordingStartTime :: "int option"
  hasDetectedSpeech :: bool
  speechStartTime :: "int option"
  isReleased :: bool
  isInitialized :: bool
  lastProbability :: real
  lastIsSpeech :: bool

definition TARGET_SAMPLE_RATE :: real where
  "TARGET_SAMPLE_RATE = 16000"

definition VAD_FRAME_SAMPLES :: nat where
  "VAD_FRAME_SAMPLES = 1536"

definition default_options :: VoiceActivityDetectorOptions where
  "default_options =
     \<lparr>speechThreshold_opt = None, silenceThreshold_opt = None, silenceDuration_opt = None,
      maxRecordingDuration_opt = None, minSpeechDuration_opt = None,
      inputSampleRate_opt = None\<rparr>"

text \<open>The \<open>??\<close> operator: the default where the option is absent.\<close>

definition nullish :: "'a option \<Rightarrow> 'a \<Rightarrow> 'a" where
  "nullish v d = (case v of None \<Rightarrow> d | Some x \<Rightarrow> x)"

text \<open>The private constructor: defaults, then validation in the order of the source.\<close>

definition vad_constructor :: "VoiceActivityDetectorOptions \<Rightarrow> error + VoiceActivityDetector" where
  "vad_constructor options =
     (let d = \<lparr>vad = False,
                speechThreshold = nullish (speechThreshold_opt options) 0.5,
                silenceThreshold = nullish (silenceThreshold_opt options) 0.35,
                silenceDuration = nullish (silenceDuration_opt options) 700,
                maxRecordingDuration = nullish (maxRecordingDuration_opt options) 30000,
                minSpeechDuration = nullish (minSpeechDuration_opt options) 200,
                inputSampleRate = nullish (inputSampleRate_opt options) TARGET_SAMPLE_RATE,
                audioBuffer = [], silenceStartTime = None, recordingStartTime = None,
                hasDetectedSpeech = False, speechStartTime = None,
                isReleased = False, isInitialized = False,
                lastProbability = 0, lastIsSpeech = False\<rparr>
      in if speechThreshold d < 0 \<or> speechThreshold d > 1
         then Inl (VADError ''Speech threshold must be between 0.0 and 1.0'')
         else if silenceThreshold d < 0 \<or> silenceThreshold d > 1
         then Inl (VADError ''Silence threshold must be between 0.0 and 1.0'')
         else if silenceDuration d < 0
         then Inl (VADError ''Silence duration must be non-negative'')
         else if maxRecordingDuration d < 0
         then Inl (VADError ''Max recording duration must be non-negative'')
         else Inr d)"

text \<open>
  \<open>initialize\<close>: \<open>RealTimeVAD.new\<close> and \<open>start\<close> belong to the external package. Their
  outcome is a parameter: \<open>Some msg\<close> when they throw an error with message \<open>msg\<close>.
\<close>

definition vad_initialize :: "string option \<Rightarrow> VoiceActivityDetector \<Rightarrow> error + VoiceActivityDetector" where
  "vad_initialize lib d =
     (case lib of
        Some msg \<Rightarrow> Inl (VADError (''Failed to initialize VAD: '' @ msg))
      | None \<Rightarrow> Inr (d\<lparr>vad := True, isInitialized := True\<rparr>))"

definition vad_create :: "VoiceActivityDetectorOptions \<Rightarrow> string option \<Rightarrow> error + VoiceActivityDetector" where
  "vad_create options lib =
     (case vad_constructor options of
        Inl e \<Rightarrow> Inl e
      | Inr d \<Rightarrow> vad_initialize lib d)"

text \<open>
  The callbacks handed to the external package. \<open>processAudio\<close> runs the package's own
  state machine, which is not part of the repository; what it does to the detector is the
  sequence of callbacks it fires, so that sequence is the parameter of the model.
  \<open>SpeechStart t\<close> carries the clock reading the callback takes with \<open>Date.now()\<close>.
\<close>

datatype vad_callback =
    FrameProcessed real
  | SpeechStart int
  | SpeechRealStart
  | SpeechEnd
  | VADMisfire

fun fire :: "vad_callback \<Rightarrow> VoiceActivityDetector \<Rightarrow> VoiceActivityDetector" where
  "fire (FrameProcessed p) d = d\<lparr>lastProbability := p, lastIsSpeech := (p > speechThreshold d)\<rparr>"
| "fire (SpeechStart t) d =
     d\<lparr>hasDetectedSpeech := True, speechStartTime := Some t, silenceStartTime := None\<rparr>"
| "fire SpeechRealStart d = d"
| "fire SpeechEnd d = d"
| "fire VADMisfire d = d\<lparr>hasDetectedSpeech := False, speechStartTime := None\<rparr>"

definition processAudio :: "vad_callback list \<Rightarrow> VoiceActivityDetector \<Rightarrow> VoiceActivityDetector" where
  "processAudio evs d = fold fire evs d"

definition getBufferedAudio :: "VoiceActivityDetector \<Rightarrow> frame" where
  "getBufferedAudio d = concat (audioBuffer d)"

definition reset :: "VoiceActivityDetector \<Rightarrow> error + VoiceActivityDetector" where
  "reset d =
     (if isReleased d then Inl (VADError ''VAD has been released'')
      else Inr (d\<lparr>audioBuffer := [], silenceStartTime := None, recordingStartTime := None,
                  hasDetectedSpeech := False, speechStartTime := None,
                  lastProbability := 0, lastIsSpeech := False\<rparr>))"

text \<open>Lines 218 to 226 of \<open>processFrame\<close>: the recording start and the buffered copy.\<close>

definition buffer_frame :: "int \<Rightarrow> frame \<Rightarrow> VoiceActivityDetector \<Rightarrow> VoiceActivityDetector" where
  "buffer_frame now fr d =
     (let d1 = (if recordingStartTime d = None then d\<lparr>recordingStartTime := Some now\<rparr> else d)
      in d1\<lparr>audioBuffer := audioBuffer d1 @ [fr]\<rparr>)"

text \<open>
  A terminal result: the buffered audio is read, then \<open>reset\<close> runs, then the result is
  returned.
\<close>

definition finish :: "VADStatus \<Rightarrow> VoiceActivityDetector \<Rightarrow> error + (VADResult \<times> VoiceActivityDetector)" where
  "finish st d =
     (let a = getBufferedAudio d
      in case reset d of
           Inl e \<Rightarrow> Inl e
         | Inr d' \<Rightarrow>
             Inr (\<lparr>status = st, probability = lastProbability d, isSpeech = lastIsSpeech d,
                   audio = Some a\<rparr>, d'))"

definition continue :: "VoiceActivityDetector \<Rightarrow> VoiceActivityDetector \<Rightarrow> error + (VADResult \<times> VoiceActivityDetector)" where
  "continue d0 d =
     Inr (\<lparr>status = Continue, probability = lastProbability d0, isSpeech = lastIsSpeech d0,
           audio = None\<rparr>, d)"

text \<open>
  Lines 237 to 311: the decision once the package has processed the frame. A timestamp
  that is \<open>null\<close> counts as \<open>0\<close> in a subtraction (\<open>js_time\<close>); line 222 and line 292
  set the two that are subtracted here. The speech duration follows JavaScript's
  truthiness: a start time of \<open>0\<close> counts as absent.
\<close>

definition js_time :: "int option \<Rightarrow> int" where
  "js_time t = (case t of None \<Rightarrow> 0 | Some x \<Rightarrow> x)"

definition decide :: "int \<Rightarrow> VoiceActivityDetector \<Rightarrow> error + (VADResult \<times> VoiceActivityDetector)" where
  "decide now d =
     (if real_of_int (now - js_time (recordingStartTime d)) > maxRecordingDuration d
      then finish Timeout d
      else
        let d1 = (if lastIsSpeech d \<and> \<not> hasDetectedSpeech d
                  then d\<lparr>hasDetectedSpeech := True, speechStartTime := Some now,
                         silenceStartTime := None\<rparr>
                  else d)
        in if lastIsSpeech d then continue d (d1\<lparr>silenceStartTime := None\<rparr>)
           else if \<not> hasDetectedSpeech d1 then continue d d1
           else
             let speechDuration =
                   (case speechStartTime d1 of
                      None \<Rightarrow> 0
                    | Some t \<Rightarrow> if t = 0 then 0 else now - t)
             in if real_of_int speechDuration < minSpeechDuration d1 then continue d d1
                else
                  let d2 = (if silenceStartTime d1 = None
                            then d1\<lparr>silenceStartTime := Some now\<rparr> else d1)
                  in if real_of_int (now - js_time (silenceStartTime d2)) > silenceDuration d2
                     then finish End d2
                     else continue d d2)"

definition processFrame ::
  "int \<Rightarrow> frame \<Rightarrow> vad_callback list \<Rightarrow> VoiceActivityDetector
     \<Rightarrow> error + (VADResult \<times> VoiceActivityDetector)" where
  "processFrame now fr evs d =
     (if isReleased d then Inl (VADError ''VAD has been released'')
      else if \<not> isInitialized d \<or> \<not> vad d then Inl (VADError ''VAD not initialized'')
      else decide now (processAudio evs (buffer_frame now fr d)))"

definition hasSpeech :: "VoiceActivityDetector \<Rightarrow> bool" where
  "hasSpeech d = hasDetectedSpeech d"

text \<open>
  \<open>release\<close>: \<open>pause\<close> belongs to the external package and may throw. Its outcome is
  the parameter \<open>paused\<close> (\<open>Inl\<close> when it throws); the \<open>try\<close>/\<open>catch\<close> of the source ignores
  the error, and the handle is set to \<open>null\<close> either way.
\<close>

definition vad_release :: "error + unit \<Rightarrow> VoiceActivityDetector \<Rightarrow> VoiceActivityDetector" where
  "vad_release paused d =
     (if \<not> isReleased d
      then let d1 = (if vad d
                     then (case paused of Inl e \<Rightarrow> d | Inr u \<Rightarrow> d)\<lparr>vad := False\<rparr>
                     else d)
           in d1\<lparr>audioBuffer := [], isReleased := True, isInitialized := False\<rparr>
      else d)"

text \<open>A run: frames fed one after the other, each with its clock reading and callbacks.\<close>

type_synonym vad_input = "int \<times> frame \<times> vad_callback list"

fun trace_vad :: "VoiceActivityDetector \<Rightarrow> vad_input list
    \<Rightarrow> (error + (VADResult \<times> VoiceActivityDetector)) list" where
  "trace_vad d [] = []"
| "trace_vad d ((now, fr, evs) # rest) =
     (case processFrame now fr evs d of
        Inl e \<Rightarrow> [Inl e]
      | Inr (r, d') \<Rightarrow> Inr (r, d') # trace_vad d' rest)"

subsection \<open>Reading detectors and runs\<close>

text \<open>
  Predicates on a detector: \<open>live\<close> is what \<open>processFrame\<close> checks before it works,
  \<open>cleared\<close> is the state \<open>reset\<close> leaves, in which no recording is under way.
\<close>

definition live :: "VoiceActivityDetector \<Rightarrow> bool" where
  "live d \<longleftrightarrow> \<not> isReleased d \<and> isInitialized d \<and> vad d"

definition cleared :: "VoiceActivityDetector \<Rightarrow> bool" where
  "cleared d \<longleftrightarrow> audioBuffer d = [] \<and> silenceStartTime d = None \<and> recordingStartTime d = None
     \<and> \<not> hasDetectedSpeech d \<and> speechStartTime d = None \<and> lastProbability d = 0
     \<and> \<not> lastIsSpeech d"

text \<open>The detector that \<open>create\<close> returns for the default options.\<close>

definition default_detector :: VoiceActivityDetector where
  "default_detector =
     \<lparr>vad = True, speechThreshold = 0.5, silenceThreshold = 0.35, silenceDuration = 700,
      maxRecordingDuration = 30000, minSpeechDuration = 200, inputSampleRate = 16000,
      audioBuffer = [], silenceStartTime = None, recordingStartTime = None,
      hasDetectedSpeech = False, speechStartTime = None,
      isReleased = False, isInitialized = True,
      lastProbability = 0, lastIsSpeech = False\<rparr>"

text \<open>
  A frame in which the package has observed no speech: it fired no speech-start callback
  and reported no probability above the onset threshold \<open>thr\<close>.
\<close>

definition no_speech_observed :: "real \<Rightarrow> vad_callback list \<Rightarrow> bool" where
  "no_speech_observed thr evs =
     list_all (\<lambda>e. case e of FrameProcessed p \<Rightarrow> \<not> p > thr | SpeechStart t \<Rightarrow> False | _ \<Rightarrow> True) evs"

text \<open>
  No speech has been observed in the current recording: the speech flag is unset, no
  silence timer runs and the last frame was not speech.
\<close>

definition unheard :: "VoiceActivityDetector \<Rightarrow> bool" where
  "unheard d \<longleftrightarrow> \<not> hasDetectedSpeech d \<and> silenceStartTime d = None \<and> \<not> lastIsSpeech d"

text \<open>What a run must show at a step where no speech has been observed so far.\<close>

definition never_end :: "(error + (VADResult \<times> VoiceActivityDetector)) \<Rightarrow> bool" where
  "never_end x =
     (case x of Inl e \<Rightarrow> False
      | Inr (r, d') \<Rightarrow> status r \<noteq> End \<and> silenceStartTime d' = None \<and> \<not> hasSpeech d')"

text \<open>
  Reading a run: whether every step returned \<open>continue\<close>, the frames that were fed, the
  clock reading of the first frame (\<open>now\<close> if the list is empty), the start of the
  recording as line 222 fixes it, and the status of a step.
\<close>

definition all_continue :: "(error + (VADResult \<times> VoiceActivityDetector)) list \<Rightarrow> bool" where
  "all_continue tr = list_all (\<lambda>x. case x of Inl e \<Rightarrow> False | Inr (r, d') \<Rightarrow> status r = Continue) tr"

definition frames_of :: "vad_input list \<Rightarrow> frame list" where
  "frames_of ins = map (\<lambda>(now, fr, evs). fr) ins"

definition first_time :: "vad_input list \<Rightarrow> int \<Rightarrow> int" where
  "first_time ins now = (case ins of [] \<Rightarrow> now | (t, fr, evs) # rest \<Rightarrow> t)"

definition started :: "VoiceActivityDetector \<Rightarrow> int \<Rightarrow> int" where
  "started d t = (case recordingStartTime d of None \<Rightarrow> t | Some t0 \<Rightarrow> t0)"

definition result_status :: "(error + (VADResult \<times> VoiceActivityDetector)) \<Rightarrow> VADStatus option" where
  "result_status x = (case x of Inl e \<Rightarrow> None | Inr (r, d') \<Rightarrow> Some (status r))"

text \<open>A frame of the detector's length whose samples are all zero.\<close>

definition zero_frame :: frame where
  "zero_frame = replicate VAD_FRAME_SAMPLES 0"

subsection \<open>Two runs on shifted clocks\<close>

text \<open>
  Two runs whose clocks differ by a constant \<open>k\<close>: every clock reading of the second,
  those taken inside the speech-start callback included, is the reading of the first
  plus \<open>k\<close>.
\<close>

fun shift_callback :: "int \<Rightarrow> vad_callback \<Rightarrow> vad_callback" where
  "shift_callback k (SpeechStart t) = SpeechStart (t + k)"
| "shift_callback k (FrameProcessed p) = FrameProcessed p"
| "shift_callback k SpeechRealStart = SpeechRealStart"
| "shift_callback k SpeechEnd = SpeechEnd"
| "shift_callback k VADMisfire = VADMisfire"

definition shift_input :: "int \<Rightarrow> vad_input \<Rightarrow> vad_input" where
  "shift_input k x = (case x of (now, fr, evs) \<Rightarrow> (now + k, fr, map (shift_callback k) evs))"

definition shift_detector :: "int \<Rightarrow> VoiceActivityDetector \<Rightarrow> VoiceActivityDetector" where
  "shift_detector k d =
     d\<lparr>silenceStartTime := map_option (\<lambda>t. t + k) (silenceStartTime d),
       recordingStartTime := map_option (\<lambda>t. t + k) (recordingStartTime d),
       speechStartTime := map_option (\<lambda>t. t + k) (speechStartTime d)\<rparr>"

text \<open>The results of a run, without the detector states.\<close>

definition results_of :: "(error + (VADResult \<times> VoiceActivityDetector)) list \<Rightarrow> (error + VADResult) list" where
  "results_of tr = map (\<lambda>x. case x of Inl e \<Rightarrow> Inl e | Inr (r, d') \<Rightarrow> Inr r) tr"

text \<open>
  Clock readings as \<open>Date.now()\<close> gives them are positive. The speech duration of line 279
  treats a start time of \<open>0\<close> as absent, so the readings of both runs are required to be
  positive.
\<close>

definition positive_callback :: "int \<Rightarrow> vad_callback \<Rightarrow> bool" where
  "positive_callback k e = (case e of SpeechStart t \<Rightarrow> 0 < t \<and> 0 < t + k | _ \<Rightarrow> True)"

definition positive_clock :: "int \<Rightarrow> vad_input \<Rightarrow> bool" where
  "positive_clock k x =
     (case x of (now, fr, evs) \<Rightarrow> 0 < now \<and> 0 < now + k \<and> list_all (positive_callback k) evs)"

definition speech_ok :: "int \<Rightarrow> VoiceActivityDetector \<Rightarrow> bool" where
  "speech_ok k d = (case speechStartTime d of None \<Rightarrow> True | Some t \<Rightarrow> 0 < t \<and> 0 < t + k)"

section \<open>Wake word detection (src/src/wake-word/index.test.ts, the module from line 278 on)\<close>

text \<open>
  The ONNX runtime is an external package. An inference session is modelled by what its
  \<open>run\<close> returns for the data of its input tensor: a function on lists of numbers
  (the shape of the tensor follows from the length of the data). \<open>run\<close> returns
  normally. The outcome of a session's \<open>release\<close> is a parameter of the detector's
  \<open>release\<close>: \<open>None\<close> when it returns, \<open>Some e\<close> when it rejects with the error \<open>e\<close>.

  The numbers are 32-bit floats in the source and reals here. Storing a number in a
  \<open>Float32Array\<close> rounds it to the nearest 32-bit float; that rounding is the parameter
  \<open>fround\<close> of the functions below, about which the model assumes nothing.
\<close>

type_synonym tensor = "real list"

type_synonym session = "tensor \<Rightarrow> tensor"

type_synonym release_outcome = "error option"

datatype WakeWord = hey_jarvis | alexa

fun wakeWord_name :: "WakeWord \<Rightarrow> string" where
  "wakeWord_name hey_jarvis = ''hey_jarvis''"
| "wakeWord_name alexa = ''alexa''"

record WakeWordDetectorOptions =
  modelPath_opt :: "string option"
  wakeWord_opt :: "WakeWord option"
  sensitivity_opt :: "real option"

record WakeWordDetector =
  melSession :: "session option"
  embeddingSession :: "session option"
  wakeWordSession :: "session option"
  melBuffer :: "tensor list"
  embeddingBuffer :: "tensor list"
  sensitivity :: real
  ww_isReleased :: bool
  ww_isInitialized :: bool
  modelPath :: string
  wakeWord :: WakeWord

text \<open>
  The constants of the module, and the local constants of its methods (\<open>melBins\<close>,
  \<open>requiredEmbeddings\<close>, which \<open>computeWakeWordScore\<close> calls \<open>numEmbeddings\<close>, and
  \<open>embeddingSize\<close>).
\<close>

definition SAMPLE_RATE :: nat where
  "SAMPLE_RATE = 16000"

definition FRAME_LENGTH :: nat where
  "FRAME_LENGTH = 1280"

definition MEL_FRAMES_PER_CHUNK :: nat where
  "MEL_FRAMES_PER_CHUNK = 5"

definition MEL_BUFFER_SIZE :: nat where
  "MEL_BUFFER_SIZE = 76"

definition EMBEDDING_WINDOW_SLIDE :: nat where
  "EMBEDDING_WINDOW_SLIDE = 8"

definition melBins :: nat where
  "melBins = 32"

definition requiredEmbeddings :: nat where
  "requiredEmbeddings = 16"

definition embeddingSize :: nat where
  "embeddingSize = 96"

text \<open>
  What \<open>create\<close> reads from its environment: the working directory, \<open>path.join\<close>,
  \<open>fs.existsSync\<close> and \<open>InferenceSession.create\<close> (\<open>Inl msg\<close> when it throws an error
  with message \<open>msg\<close>). The calls that touch model files are recorded in a log, in the
  order in which they are made.
\<close>

record environment =
  cwd :: string
  path_join :: "string \<Rightarrow> string \<Rightarrow> string"
  existsSync :: "string \<Rightarrow> bool"
  session_create :: "string \<Rightarrow> string + session"

datatype io = ExistsSync string | SessionCreate string

definition ww_constructor :: "environment \<Rightarrow> WakeWordDetectorOptions \<Rightarrow> error + WakeWordDetector" where
  "ww_constructor env options =
     (let d = \<lparr>melSession = None, embeddingSession = None, wakeWordSession = None,
                melBuffer = [], embeddingBuffer = [],
                sensitivity = nullish (sensitivity_opt options) 0.5,
                ww_isReleased = False, ww_isInitialized = False,
                modelPath = nullish (modelPath_opt options) (path_join env (cwd env) ''models''),
                wakeWord = nullish (wakeWord_opt options) hey_jarvis\<rparr>
      in if sensitivity d < 0 \<or> sensitivity d > 1
         then Inl (WakeWordError ''Sensitivity must be between 0.0 and 1.0'')
         else Inr d)"

definition not_found :: "string \<Rightarrow> string \<Rightarrow> error" where
  "not_found what path =
     WakeWordModelError (what @ '' model not found at '' @ path
       @ ''. Run 'bun run models:download' first.'')"

definition load_failed :: "string \<Rightarrow> error" where
  "load_failed msg = WakeWordModelError (''Failed to initialize ONNX models: '' @ msg)"

definition ww_initialize :: "environment \<Rightarrow> WakeWordDetector \<Rightarrow> io list \<times> (error + WakeWordDetector)" where
  "ww_initialize env d =
     (let melPath = path_join env (modelPath d) ''melspectrogram.onnx'';
          embeddingPath = path_join env (modelPath d) ''embedding_model.onnx'';
          wakeWordPath = path_join env (modelPath d) (wakeWord_name (wakeWord d) @ ''_v0.1.onnx'')
      in if \<not> existsSync env melPath
         then ([ExistsSync melPath], Inl (not_found ''Melspectrogram'' melPath))
         else if \<not> existsSync env embeddingPath
         then ([ExistsSync melPath, ExistsSync embeddingPath],
               Inl (not_found ''Embedding'' embeddingPath))
         else if \<not> existsSync env wakeWordPath
         then ([ExistsSync melPath, ExistsSync embeddingPath, ExistsSync wakeWordPath],
               Inl (not_found ''Wake word'' wakeWordPath))
         else
           let checks = [ExistsSync melPath, ExistsSync embeddingPath, ExistsSync wakeWordPath]
           in case session_create env melPath of
                Inl msg \<Rightarrow> (checks @ [SessionCreate melPath], Inl (load_failed msg))
              | Inr s1 \<Rightarrow>
                 (case session_create env embeddingPath of
                    Inl msg \<Rightarrow>
                      (checks @ [SessionCreate melPath, SessionCreate embeddingPath],
                       Inl (load_failed msg))
                  | Inr s2 \<Rightarrow>
                     (case session_create env wakeWordPath of
                        Inl msg \<Rightarrow>
                          (checks @ [SessionCreate melPath, SessionCreate embeddingPath,
                                     SessionCreate wakeWordPath],
                           Inl (load_failed msg))
                      | Inr s3 \<Rightarrow>
                          (checks @ [SessionCreate melPath, SessionCreate embeddingPath,
                                     SessionCreate wakeWordPath],
                           Inr (d\<lparr>melSession := Some s1, embeddingSession := Some s2,
                                   wakeWordSession := Some s3, ww_isInitialized := True\<rparr>)))))"

definition ww_create :: "environment \<Rightarrow> WakeWordDetectorOptions \<Rightarrow> io list \<times> (error + WakeWordDetector)" where
  "ww_create env options =
     (case ww_constructor env options of
        Inl e \<Rightarrow> ([], Inl e)
      | Inr d \<Rightarrow> ww_initialize env d)"

text \<open>Decimal digits of a number, for the message of the frame length error.\<close>

fun show_nat :: "nat \<Rightarrow> string" where
  "show_nat n = (if n < 10 then [char_of (48 + n)] else show_nat (n div 10) @ [char_of (48 + n mod 10)])"

text \<open>
  \<open>TypedArray.prototype.set(source, offset)\<close>: a \<open>RangeError\<close> when the source does not fit
  behind the offset, else the source overwrites that part of the array.
\<close>

definition set_at :: "tensor \<Rightarrow> tensor \<Rightarrow> nat \<Rightarrow> error + tensor" where
  "set_at dest src off =
     (if off + length src > length dest then Inl RangeError
      else Inr (take off dest @ src @ drop (off + length src) dest))"

text \<open>
  The loops \<open>for (i ...) data.set(rows[i], i * width)\<close>, from row \<open>i\<close> on, over the rows
  that exist.
\<close>

fun pack :: "nat \<Rightarrow> tensor list \<Rightarrow> nat \<Rightarrow> tensor \<Rightarrow> error + tensor" where
  "pack width [] i data = Inr data"
| "pack width (row # rows) i data =
     (case set_at data row (i * width) of
        Inl e \<Rightarrow> Inl e
      | Inr data' \<Rightarrow> pack width rows (i + 1) data')"

text \<open>
  Lines 478 to 481 of \<open>processFrame\<close>: the samples, divided by 32768 and stored in a
  \<open>Float32Array\<close>.
\<close>

definition normalize :: "(real \<Rightarrow> real) \<Rightarrow> frame \<Rightarrow> tensor" where
  "normalize fround fr = map (\<lambda>x. fround (real_of_int (sint x) / 32768)) fr"

text \<open>
  \<open>computeMelspectrogram\<close>: the output of the session, each value transformed and stored
  in a \<open>Float32Array\<close>, then cut into frames of \<open>melBins\<close> values.
\<close>

definition computeMelspectrogram ::
  "(real \<Rightarrow> real) \<Rightarrow> session option \<Rightarrow> tensor \<Rightarrow> error + tensor list" where
  "computeMelspectrogram fround ms audio_in =
     (case ms of
        None \<Rightarrow> Inl (WakeWordError ''Mel session not initialized'')
      | Some run \<Rightarrow>
          let melData = run audio_in;
              transformedMel = map (\<lambda>v. fround (v / 10 + 2)) melData;
              numFrames = length transformedMel div melBins
          in Inr (map (\<lambda>i. take melBins (drop (i * melBins) transformedMel)) [0..<numFrames]))"

text \<open>
  \<open>computeEmbedding\<close>: the first \<open>MEL_BUFFER_SIZE\<close> frames are packed and handed to the
  session. A row that does not exist is \<open>undefined\<close>, on which \<open>set\<close> throws a
  \<open>TypeError\<close>.
\<close>

definition computeEmbedding :: "session option \<Rightarrow> tensor list \<Rightarrow> error + tensor" where
  "computeEmbedding es mb =
     (case es of
        None \<Rightarrow> Inl (WakeWordError ''Embedding session not initialized'')
      | Some run \<Rightarrow>
          let melWindow = take MEL_BUFFER_SIZE mb
          in case pack melBins melWindow 0 (replicate (MEL_BUFFER_SIZE * melBins) 0) of
               Inl e \<Rightarrow> Inl e
             | Inr melData \<Rightarrow>
                 if length melWindow < MEL_BUFFER_SIZE then Inl TypeError
                 else Inr (run melData))"

text \<open>
  \<open>computeWakeWordScore\<close>: the last 16 embeddings are packed and classified; the score is
  the last output (\<open>scores[scores.length - 1]\<close>), \<open>undefined\<close> (\<open>None\<close>) when the output is
  empty.
\<close>

definition last_score :: "tensor \<Rightarrow> real option" where
  "last_score scores = (if scores = [] then None else Some (last scores))"

definition computeWakeWordScore :: "session option \<Rightarrow> tensor list \<Rightarrow> error + real option" where
  "computeWakeWordScore ws eb =
     (case ws of
        None \<Rightarrow> Inl (WakeWordError ''Wake word session not initialized'')
      | Some run \<Rightarrow>
          let numEmbeddings = 16;
              embeddings = drop (length eb - numEmbeddings) eb
          in case pack embeddingSize embeddings 0 (replicate (numEmbeddings * embeddingSize) 0) of
               Inl e \<Rightarrow> Inl e
             | Inr embeddingData \<Rightarrow>
                 if length embeddings < numEmbeddings then Inl TypeError
                 else Inr (last_score (run embeddingData)))"

text \<open>Step 2 of \<open>processFrame\<close>: the loop that turns full mel windows into embeddings.\<close>

function embed_loop :: "WakeWordDetector \<Rightarrow> error + WakeWordDetector" where
  "embed_loop d =
     (if length (melBuffer d) \<ge> MEL_BUFFER_SIZE
      then case computeEmbedding (embeddingSession d) (melBuffer d) of
             Inl e \<Rightarrow> Inl e
           | Inr embedding \<Rightarrow>
               embed_loop (d\<lparr>embeddingBuffer := embeddingBuffer d @ [embedding],
                             melBuffer := drop EMBEDDING_WINDOW_SLIDE (melBuffer d)\<rparr>)
      else Inr d)"
  by pat_completeness auto

termination
  by (relation "measure (\<lambda>d. length (melBuffer d))")
     (auto simp: MEL_BUFFER_SIZE_def EMBEDDING_WINDOW_SLIDE_def)

declare embed_loop.simps [simp del]

text \<open>
  A score that is \<open>undefined\<close> does not exceed the sensitivity: the comparison is false.
\<close>

definition exceeds :: "real option \<Rightarrow> real \<Rightarrow> bool" where
  "exceeds score s = (case score of None \<Rightarrow> False | Some v \<Rightarrow> v > s)"

definition ww_processFrame ::
  "(real \<Rightarrow> real) \<Rightarrow> frame \<Rightarrow> WakeWordDetector \<Rightarrow> error + (bool \<times> WakeWordDetector)" where
  "ww_processFrame fround fr d =
     (if ww_isReleased d then Inl (WakeWordError ''Detector has been released'')
      else if \<not> ww_isInitialized d then Inl (WakeWordError ''Detector not initialized'')
      else if length fr \<noteq> FRAME_LENGTH
      then Inl (WakeWordError (''Invalid frame length: expected '' @ show_nat FRAME_LENGTH
                  @ '', got '' @ show_nat (length fr)))
      else case computeMelspectrogram fround (melSession d) (normalize fround fr) of
             Inl e \<Rightarrow> Inl e
           | Inr melFrames \<Rightarrow>
              (case embed_loop (d\<lparr>melBuffer := melBuffer d @ melFrames\<rparr>) of
                 Inl e \<Rightarrow> Inl e
               | Inr d1 \<Rightarrow>
                   if length (embeddingBuffer d1) \<ge> requiredEmbeddings
                   then case computeWakeWordScore (wakeWordSession d1) (embeddingBuffer d1) of
                          Inl e \<Rightarrow> Inl e
                        | Inr score \<Rightarrow>
                            let d2 = d1\<lparr>embeddingBuffer := drop 1 (embeddingBuffer d1)\<rparr>
                            in if exceeds score (sensitivity d2)
                               then Inr (True, d2\<lparr>melBuffer := [], embeddingBuffer := []\<rparr>)
                               else Inr (False, d2)
                   else Inr (False, d1)))"

text \<open>
  \<open>release\<close> (lines 658 to 678): each session that is set is released and then set to
  \<open>null\<close>, in the order mel, embedding, wake word; the buffers and flags are set last.
  The three awaited calls are not guarded: when one rejects (\<open>r1\<close>, \<open>r2\<close>, \<open>r3\<close> are
  their outcomes), \<open>release\<close> rejects with that error and the statements behind it do
  not run. The result is the error thrown, if any, and the detector as it is left.
\<close>

definition awaited :: "session option \<Rightarrow> release_outcome \<Rightarrow> release_outcome" where
  "awaited s r = (case s of None \<Rightarrow> None | Some run \<Rightarrow> r)"

definition ww_release ::
  "release_outcome \<Rightarrow> release_outcome \<Rightarrow> release_outcome \<Rightarrow> WakeWordDetector
     \<Rightarrow> error option \<times> WakeWordDetector" where
  "ww_release r1 r2 r3 d =
     (if \<not> ww_isReleased d
      then case awaited (melSession d) r1 of
             Some e \<Rightarrow> (Some e, d)
           | None \<Rightarrow>
              (let d1 = d\<lparr>melSession := None\<rparr>
               in case awaited (embeddingSession d1) r2 of
                    Some e \<Rightarrow> (Some e, d1)
                  | None \<Rightarrow>
                     (let d2 = d1\<lparr>embeddingSession := None\<rparr>
                      in case awaited (wakeWordSession d2) r3 of
                           Some e \<Rightarrow> (Some e, d2)
                         | None \<Rightarrow>
                             (None, d2\<lparr>wakeWordSession := None,
                                      melBuffer := [], embeddingBuffer := [],
                                      ww_isReleased := True, ww_isInitialized := False\<rparr>)))
      else (None, d))"

definition ww_reset :: "WakeWordDetector \<Rightarrow> error + WakeWordDetector" where
  "ww_reset d =
     (if ww_isReleased d then Inl (WakeWordError ''Detector has been released'')
      else Inr (d\<lparr>melBuffer := [], embeddingBuffer := []\<rparr>))"

subsection \<open>The window bookkeeping in closed form\<close>

text \<open>
  \<open>windows n\<close> is the number of times the loop of step 2 finds a mel window of \<open>n\<close>
  frames at its capacity, \<open>window_at mb i\<close> the frames the embedding stage reads the
  \<open>i\<close>-th time.
\<close>

definition windows :: "nat \<Rightarrow> nat" where
  "windows n = (if n < MEL_BUFFER_SIZE then 0 else (n - MEL_BUFFER_SIZE) div EMBEDDING_WINDOW_SLIDE + 1)"

definition window_at :: "tensor list \<Rightarrow> nat \<Rightarrow> tensor list" where
  "window_at mb i = take MEL_BUFFER_SIZE (drop (EMBEDDING_WINDOW_SLIDE * i) mb)"

text \<open>
  A detector that \<open>processFrame\<close> accepts, with its three sessions, in which every mel
  frame has 32 bins and every embedding 96 values: the shapes the models produce.
\<close>

definition ready :: "WakeWordDetector \<Rightarrow> session \<Rightarrow> session \<Rightarrow> session \<Rightarrow> bool" where
  "ready d ms es ws \<longleftrightarrow>
     \<not> ww_isReleased d \<and> ww_isInitialized d
     \<and> melSession d = Some ms \<and> embeddingSession d = Some es \<and> wakeWordSession d = Some ws
     \<and> list_all (\<lambda>f. length f = melBins) (melBuffer d)
     \<and> list_all (\<lambda>e. length e = embeddingSize) (embeddingBuffer d)"

text \<open>
  Sample sessions (five mel frames per audio frame, embeddings of 96 values, a score of
  0.9), a detector one mel frame and one embedding short of a classification, and an
  environment in which every model file exists and loads.
\<close>

definition sample_sessions :: "session \<times> session \<times> session" where
  "sample_sessions =
     (\<lambda>a. replicate 160 0, \<lambda>m. replicate 96 0, \<lambda>e. [0.9])"

definition sample_detector :: WakeWordDetector where
  "sample_detector =
     \<lparr>melSession = Some (fst sample_sessions),
      embeddingSession = Some (fst (snd sample_sessions)),
      wakeWordSession = Some (snd (snd sample_sessions)),
      melBuffer = replicate 75 (replicate 32 2),
      embeddingBuffer = replicate 15 (replicate 96 0),
      sensitivity = 0.5, ww_isReleased = False, ww_isInitialized = True,
      modelPath = ''models'', wakeWord = hey_jarvis\<rparr>"

definition sample_environment :: environment where
  "sample_environment =
     \<lparr>cwd = ''/app'', path_join = (\<lambda>a b. a @ ''/'' @ b), existsSync = (\<lambda>p. True),
      session_create = (\<lambda>p. Inr (\<lambda>x. [0.1]))\<rparr>"

section \<open>Emulated audio channel (src/unnamed/part_006)\<close>

record EmulatedChannelOptions =
  ch_audioBuffer_opt :: "frame option"
  realtime_opt :: "bool option"
  frameLength_opt :: "nat option"
  sampleRate_opt :: "nat option"

text \<open>
  A frame callback is arbitrary code of the caller. What it can do to the channel that
  invokes it is call the channel's methods, so a callback is modelled by the calls it
  makes when it is handed a frame; a callback that only reads the frame makes none.
\<close>

datatype channel_call = CallStop | CallRelease | CallReset | CallSetAudioBuffer frame

record EmulatedChannel =
  ch_audioBuffer :: frame
  frameCallback :: "(frame \<Rightarrow> channel_call list) option"
  running :: bool
  released :: bool
  position :: nat
  frameLength :: nat
  sampleRate :: nat
  realtime :: bool

definition AUDIO_FORMAT_SAMPLE_RATE :: nat where
  "AUDIO_FORMAT_SAMPLE_RATE = 16000"

definition AUDIO_FORMAT_FRAME_LENGTH :: nat where
  "AUDIO_FORMAT_FRAME_LENGTH = 512"

definition ch_constructor :: "EmulatedChannelOptions \<Rightarrow> EmulatedChannel" where
  "ch_constructor options =
     \<lparr>ch_audioBuffer = nullish (ch_audioBuffer_opt options) [],
      frameCallback = None, running = False, released = False, position = 0,
      frameLength = nullish (frameLength_opt options) AUDIO_FORMAT_FRAME_LENGTH,
      sampleRate = nullish (sampleRate_opt options) AUDIO_FORMAT_SAMPLE_RATE,
      realtime = nullish (realtime_opt options) True\<rparr>"

definition setAudioBuffer :: "frame \<Rightarrow> EmulatedChannel \<Rightarrow> EmulatedChannel" where
  "setAudioBuffer buffer c = c\<lparr>ch_audioBuffer := buffer, position := 0\<rparr>"

definition ch_reset :: "EmulatedChannel \<Rightarrow> EmulatedChannel" where
  "ch_reset c = c\<lparr>position := 0\<rparr>"

definition onFrame :: "(frame \<Rightarrow> channel_call list) \<Rightarrow> EmulatedChannel \<Rightarrow> EmulatedChannel" where
  "onFrame callback c = c\<lparr>frameCallback := Some callback\<rparr>"

definition getTotalFrames :: "EmulatedChannel \<Rightarrow> nat" where
  "getTotalFrames c = nat \<lceil>real (length (ch_audioBuffer c)) / real (frameLength c)\<rceil>"

definition ch_stop :: "EmulatedChannel \<Rightarrow> EmulatedChannel" where
  "ch_stop c = c\<lparr>running := False\<rparr>"

definition ch_release :: "EmulatedChannel \<Rightarrow> EmulatedChannel" where
  "ch_release c =
     (if released c then c
      else (ch_stop c)\<lparr>released := True, ch_audioBuffer := [], frameCallback := None\<rparr>)"

fun call :: "channel_call \<Rightarrow> EmulatedChannel \<Rightarrow> EmulatedChannel" where
  "call CallStop c = ch_stop c"
| "call CallRelease c = ch_release c"
| "call CallReset c = ch_reset c"
| "call (CallSetAudioBuffer buffer) c = setAudioBuffer buffer c"

text \<open>
  The frame of one iteration of \<open>emitLoop\<close>: the slice from the cursor, and zeros behind
  it when it is shorter than the frame length.
\<close>

definition next_frame :: "EmulatedChannel \<Rightarrow> frame" where
  "next_frame c =
     (let endPos = min (position c + frameLength c) (length (ch_audioBuffer c));
          frameData = take (endPos - position c) (drop (position c) (ch_audioBuffer c))
      in if length frameData < frameLength c
         then frameData @ replicate (frameLength c - length frameData) 0
         else frameData)"

text \<open>
  The body of the loop: the frames handed to the callback in this iteration (at most
  one) and the channel afterwards. The pacing delay of the real-time mode changes no
  field; time is not part of the model.
\<close>

definition emit_step :: "EmulatedChannel \<Rightarrow> frame list \<times> EmulatedChannel" where
  "emit_step c =
     (let fr = next_frame c;
          emitted = (case frameCallback c of
                       Some callback \<Rightarrow> if running c then [fr] else []
                     | None \<Rightarrow> []);
          c1 = (case frameCallback c of
                  Some callback \<Rightarrow> if running c then fold call (callback fr) c else c
                | None \<Rightarrow> c)
      in (emitted, c1\<lparr>position := position c1 + frameLength c1\<rparr>))"

text \<open>
  \<open>emitLoop\<close>, with the frames emitted so far. The loop need not end (a frame length of
  zero, or a callback that keeps resetting the buffer): then the value is \<open>None\<close>.
\<close>

partial_function (option) emitLoop :: "EmulatedChannel \<Rightarrow> frame list \<Rightarrow> (frame list \<times> EmulatedChannel) option" where
  "emitLoop c out =
     (if running c \<and> \<not> released c \<and> position c < length (ch_audioBuffer c)
      then emitLoop (snd (emit_step c)) (out @ fst (emit_step c))
      else Some (out, c\<lparr>running := False\<rparr>))"

text \<open>
  \<open>start\<close>, followed until the emission is over (\<open>waitForCompletion\<close>): the frames
  handed to the callback and the channel afterwards.
\<close>

definition ch_start :: "EmulatedChannel \<Rightarrow> (error + (frame list \<times> EmulatedChannel)) option" where
  "ch_start c =
     (if released c then Some (Inl (ChannelError ''EmulatedChannel has been released''))
      else if running c then Some (Inr ([], c))
      else if length (ch_audioBuffer c) = 0
      then Some (Inl (ChannelError ''EmulatedChannel has no audio data to emit''))
      else map_option Inr (emitLoop (c\<lparr>running := True\<rparr>) []))"

text \<open>The frame that starts at sample \<open>q\<close> of a buffer, padded to the frame length.\<close>

definition chunk :: "frame \<Rightarrow> nat \<Rightarrow> nat \<Rightarrow> frame" where
  "chunk buf F q = take F (drop q buf) @ replicate (F - length (take F (drop q buf))) 0"

text \<open>
  A channel whose callback only observes: it makes no call on the channel.
\<close>

definition observing :: "EmulatedChannel \<Rightarrow> bool" where
  "observing c \<longleftrightarrow> (\<exists>cb. frameCallback c = Some cb \<and> (\<forall>fr. cb fr = []))"

text \<open>
  A fast channel over 600 samples of value 1000 with the default frame length of 512.
\<close>

definition padded_example :: EmulatedChannel where
  "padded_example =
     onFrame (\<lambda>fr. [])
       (ch_constructor \<lparr>ch_audioBuffer_opt = Some (replicate 600 1000), realtime_opt = Some False,
                        frameLength_opt = None, sampleRate_opt = None\<rparr>)"

section \<open>Properties of the voice activity detector\<close>

lemma create_default: "vad_create default_options None = Inr default_detector"
  by (simp add: vad_create_def vad_constructor_def vad_initialize_def default_options_def
      nullish_def default_detector_def TARGET_SAMPLE_RATE_def Let_def)

lemma default_detector_live: "live default_detector"
  by (simp add: live_def default_detector_def)

lemma default_detector_cleared: "cleared default_detector"
  by (simp add: cleared_def default_detector_def)

text \<open>Every detector that \<open>create\<close> returns is live, with no recording under way.\<close>

lemma created_live_cleared:
  assumes "vad_create options lib = Inr d"
  shows "live d \<and> cleared d \<and> 0 \<le> silenceDuration d \<and> 0 \<le> maxRecordingDuration d"
  using assms
  by (auto simp: vad_create_def vad_constructor_def vad_initialize_def live_def cleared_def
      Let_def split: if_splits option.splits)

text \<open>
  The definitions to unfold when a run is evaluated on concrete frames.
\<close>

lemmas vad_eval = processFrame_def default_detector_def decide_def processAudio_def
  buffer_frame_def finish_def continue_def reset_def getBufferedAudio_def js_time_def Let_def
  result_status_def

subsection \<open>What the callbacks and the buffering leave alone\<close>

lemma fire_frame [simp]:
  "audioBuffer (fire e d) = audioBuffer d"
  "recordingStartTime (fire e d) = recordingStartTime d"
  "isReleased (fire e d) = isReleased d"
  "isInitialized (fire e d) = isInitialized d"
  "vad (fire e d) = vad d"
  "speechThreshold (fire e d) = speechThreshold d"
  "silenceThreshold (fire e d) = silenceThreshold d"
  "silenceDuration (fire e d) = silenceDuration d"
  "maxRecordingDuration (fire e d) = maxRecordingDuration d"
  "minSpeechDuration (fire e d) = minSpeechDuration d"
  "inputSampleRate (fire e d) = inputSampleRate d"
  by (cases e; simp)+

lemma processAudio_frame [simp]:
  "audioBuffer (processAudio evs d) = audioBuffer d"
  "recordingStartTime (processAudio evs d) = recordingStartTime d"
  "isReleased (processAudio evs d) = isReleased d"
  "isInitialized (processAudio evs d) = isInitialized d"
  "vad (processAudio evs d) = vad d"
  "speechThreshold (processAudio evs d) = speechThreshold d"
  "silenceThreshold (processAudio evs d) = silenceThreshold d"
  "silenceDuration (processAudio evs d) = silenceDuration d"
  "maxRecordingDuration (processAudio evs d) = maxRecordingDuration d"
  "minSpeechDuration (processAudio evs d) = minSpeechDuration d"
  "inputSampleRate (processAudio evs d) = inputSampleRate d"
  unfolding processAudio_def
  by (induction evs arbitrary: d; simp)+

lemma fire_silence_None:
  "silenceStartTime d = None \<Longrightarrow> silenceStartTime (fire e d) = None"
  by (cases e) simp_all

lemma processAudio_silence_None:
  "silenceStartTime d = None \<Longrightarrow> silenceStartTime (processAudio evs d) = None"
  unfolding processAudio_def
  by (induction evs arbitrary: d) (simp_all add: fire_silence_None)

lemma fire_silence_cases:
  "silenceStartTime (fire e d) = None \<or> silenceStartTime (fire e d) = silenceStartTime d"
  by (cases e) simp_all

lemma processAudio_silence_cases:
  "silenceStartTime (processAudio evs d) = None
   \<or> silenceStartTime (processAudio evs d) = silenceStartTime d"
  unfolding processAudio_def
proof (induction evs arbitrary: d)
  case Nil
  then show ?case by simp
next
  case (Cons e evs)
  from Cons.IH [of "fire e d"] fire_silence_cases [of e d] show ?case
    by auto
qed

lemma buffer_frame_simps [simp]:
  "audioBuffer (buffer_frame now fr d) = audioBuffer d @ [fr]"
  "recordingStartTime (buffer_frame now fr d) =
     Some (case recordingStartTime d of None \<Rightarrow> now | Some t \<Rightarrow> t)"
  "silenceStartTime (buffer_frame now fr d) = silenceStartTime d"
  "hasDetectedSpeech (buffer_frame now fr d) = hasDetectedSpeech d"
  "speechStartTime (buffer_frame now fr d) = speechStartTime d"
  "lastIsSpeech (buffer_frame now fr d) = lastIsSpeech d"
  "lastProbability (buffer_frame now fr d) = lastProbability d"
  "isReleased (buffer_frame now fr d) = isReleased d"
  "isInitialized (buffer_frame now fr d) = isInitialized d"
  "vad (buffer_frame now fr d) = vad d"
  "speechThreshold (buffer_frame now fr d) = speechThreshold d"
  "silenceThreshold (buffer_frame now fr d) = silenceThreshold d"
  "silenceDuration (buffer_frame now fr d) = silenceDuration d"
  "maxRecordingDuration (buffer_frame now fr d) = maxRecordingDuration d"
  "minSpeechDuration (buffer_frame now fr d) = minSpeechDuration d"
  by (simp_all add: buffer_frame_def Let_def split: option.splits)

subsection \<open>One frame\<close>

lemma processFrame_live:
  "live d \<Longrightarrow> processFrame now fr evs d = decide now (processAudio evs (buffer_frame now fr d))"
  by (simp add: processFrame_def live_def)

lemma finish_live:
  "\<not> isReleased d \<Longrightarrow>
   finish st d =
     Inr (\<lparr>status = st, probability = lastProbability d, isSpeech = lastIsSpeech d,
           audio = Some (concat (audioBuffer d))\<rparr>,
          d\<lparr>audioBuffer := [], silenceStartTime := None, recordingStartTime := None,
            hasDetectedSpeech := False, speechStartTime := None,
            lastProbability := 0, lastIsSpeech := False\<rparr>)"
  by (simp add: finish_def reset_def getBufferedAudio_def)

lemma decide_total:
  "\<not> isReleased d \<Longrightarrow> \<exists>r d'. decide now d = Inr (r, d')"
  by (simp add: decide_def Let_def continue_def finish_live)

lemma decide_terminal:
  assumes "\<not> isReleased d" "decide now d = Inr (r, d')" "status r \<noteq> Continue"
  shows "cleared d'"
  using assms
  by (auto simp: decide_def continue_def Let_def finish_live cleared_def split: if_splits)

lemma decide_config:
  assumes "\<not> isReleased d" "decide now d = Inr (r, d')"
  shows "speechThreshold d' = speechThreshold d \<and> silenceThreshold d' = silenceThreshold d
     \<and> silenceDuration d' = silenceDuration d \<and> maxRecordingDuration d' = maxRecordingDuration d
     \<and> minSpeechDuration d' = minSpeechDuration d \<and> isReleased d' = isReleased d
     \<and> isInitialized d' = isInitialized d \<and> vad d' = vad d"
  using assms
  by (auto simp: decide_def Let_def continue_def finish_live split: if_splits)

lemma processFrame_config:
  assumes "processFrame now fr evs d = Inr (r, d')"
  shows "speechThreshold d' = speechThreshold d \<and> silenceThreshold d' = silenceThreshold d
     \<and> silenceDuration d' = silenceDuration d \<and> maxRecordingDuration d' = maxRecordingDuration d
     \<and> minSpeechDuration d' = minSpeechDuration d \<and> live d' \<and> live d"
proof -
  from assms have l: "live d"
    by (auto simp: processFrame_def live_def split: if_splits)
  with assms have "decide now (processAudio evs (buffer_frame now fr d)) = Inr (r, d')"
    by (simp add: processFrame_live)
  from decide_config [OF _ this] l show ?thesis
    by (simp add: live_def)
qed

lemma decide_from_cleared:
  assumes "\<not> isReleased d" "recordingStartTime d = Some now" "silenceStartTime d = None"
    and "0 \<le> maxRecordingDuration d" "0 \<le> silenceDuration d"
  shows "\<exists>r d'. decide now d = Inr (r, d') \<and> status r = Continue
           \<and> recordingStartTime d' = Some now \<and> audioBuffer d' = audioBuffer d"
  using assms
  by (simp add: decide_def Let_def continue_def finish_live js_time_def)

subsection \<open>The state after a terminal result\<close>

text \<open>
  Claim C10. When \<open>processFrame\<close> returns \<open>end\<close> or \<open>timeout\<close>, the detector it leaves has an
  empty audio buffer, no recording, silence or speech timestamp, and \<open>hasSpeech\<close> is false.
  The next call therefore begins a fresh recording without any call of \<open>reset\<close>: for a
  configuration the constructor accepts (non-negative durations) it returns \<open>continue\<close>,
  the recording starts at that call's clock reading and the buffer holds that frame only.
\<close>

theorem processFrame_terminal_clears:
  assumes "processFrame now fr evs d = Inr (r, d')"
    and "status r = End \<or> status r = Timeout"
  shows "audioBuffer d' = [] \<and> silenceStartTime d' = None \<and> recordingStartTime d' = None
     \<and> speechStartTime d' = None \<and> \<not> hasSpeech d'
     \<and> (0 \<le> maxRecordingDuration d \<and> 0 \<le> silenceDuration d \<longrightarrow>
          (\<forall>now2 fr2 evs2. \<exists>r2 d2. processFrame now2 fr2 evs2 d' = Inr (r2, d2)
             \<and> status r2 = Continue \<and> recordingStartTime d2 = Some now2
             \<and> audioBuffer d2 = [fr2]))"
proof -
  from processFrame_config [OF assms(1)] have l: "live d" "live d'"
    and cfg: "maxRecordingDuration d' = maxRecordingDuration d"
      "silenceDuration d' = silenceDuration d"
    by simp_all
  from assms(1) l have dec: "decide now (processAudio evs (buffer_frame now fr d)) = Inr (r, d')"
    by (simp add: processFrame_live)
  from l(1) have "\<not> isReleased (processAudio evs (buffer_frame now fr d))"
    by (simp add: live_def)
  from decide_terminal [OF this dec] assms(2) have c: "cleared d'"
    by auto
  then have first: "audioBuffer d' = [] \<and> silenceStartTime d' = None \<and> recordingStartTime d' = None
     \<and> speechStartTime d' = None \<and> \<not> hasSpeech d'"
    by (simp add: cleared_def hasSpeech_def)
  have "\<exists>r2 d2. processFrame now2 fr2 evs2 d' = Inr (r2, d2)
             \<and> status r2 = Continue \<and> recordingStartTime d2 = Some now2
             \<and> audioBuffer d2 = [fr2]"
    if v: "0 \<le> maxRecordingDuration d" "0 \<le> silenceDuration d" for now2 fr2 evs2
  proof -
    let ?m = "processAudio evs2 (buffer_frame now2 fr2 d')"
    have "\<not> isReleased ?m" "recordingStartTime ?m = Some now2" "silenceStartTime ?m = None"
      "0 \<le> maxRecordingDuration ?m" "0 \<le> silenceDuration ?m" "audioBuffer ?m = [fr2]"
      using l(2) c v cfg
      by (simp_all add: live_def cleared_def processAudio_silence_None)
    from decide_from_cleared [OF this(1-5)] this(6) show ?thesis
      using l(2) by (simp add: processFrame_live)
  qed
  with first show ?thesis by blast
qed

text \<open>
  An instance: the default detector, 30001 ms into a recording, times out; the next call
  begins a recording of its own.
\<close>

theorem processFrame_terminal_clears_witness:
  "(case processFrame 31001 [3, 4] [FrameProcessed 0.1]
           (default_detector\<lparr>recordingStartTime := Some 1000, audioBuffer := [[1, 2]]\<rparr>) of
      Inl e \<Rightarrow> False
    | Inr (r, d') \<Rightarrow> status r = Timeout \<and> audio r = Some [1, 2, 3, 4] \<and> audioBuffer d' = []
        \<and> silenceStartTime d' = None \<and> recordingStartTime d' = None
        \<and> speechStartTime d' = None \<and> \<not> hasSpeech d'
        \<and> (\<exists>r2 d2. processFrame 31097 [5, 6] [FrameProcessed 0.2] d' = Inr (r2, d2)
             \<and> status r2 = Continue \<and> recordingStartTime d2 = Some 31097
             \<and> audioBuffer d2 = [[5, 6]]))"
proof -
  let ?d = "default_detector\<lparr>recordingStartTime := Some 1000, audioBuffer := [[1, 2]]\<rparr>"
  obtain r d' where step: "processFrame 31001 [3, 4] [FrameProcessed 0.1] ?d = Inr (r, d')"
    and st: "status r = Timeout" and au: "audio r = Some [1, 2, 3, 4]"
    by (simp add: processFrame_def default_detector_def decide_def processAudio_def
        buffer_frame_def finish_def reset_def getBufferedAudio_def js_time_def Let_def)
  have cfg: "0 \<le> maxRecordingDuration ?d \<and> 0 \<le> silenceDuration ?d"
    by (simp add: default_detector_def)
  from processFrame_terminal_clears [OF step] st cfg
  show ?thesis
    using step st au by simp
qed

subsection \<open>Silence before speech\<close>

lemma fire_unheard:
  assumes "unheard d"
    and "case e of FrameProcessed p \<Rightarrow> \<not> p > speechThreshold d | SpeechStart t \<Rightarrow> False | _ \<Rightarrow> True"
  shows "unheard (fire e d)"
  using assms by (cases e) (simp_all add: unheard_def)

lemma fold_fire_unheard:
  "unheard d \<Longrightarrow> speechThreshold d = thr \<Longrightarrow> no_speech_observed thr evs
   \<Longrightarrow> unheard (fold fire evs d)"
proof (induction evs arbitrary: d)
  case Nil
  then show ?case by simp
next
  case (Cons e evs)
  from Cons.prems have "unheard (fire e d)"
    by (intro fire_unheard) (auto simp: no_speech_observed_def split: vad_callback.splits)
  moreover from Cons.prems have "no_speech_observed thr evs"
    by (simp add: no_speech_observed_def)
  moreover from Cons.prems have "speechThreshold (fire e d) = thr"
    by simp
  ultimately show ?case
    using Cons.IH [of "fire e d"] by simp
qed

lemma processAudio_unheard:
  "unheard d \<Longrightarrow> no_speech_observed (speechThreshold d) evs \<Longrightarrow> unheard (processAudio evs d)"
  by (simp add: processAudio_def fold_fire_unheard)

lemma buffer_frame_unheard: "unheard (buffer_frame now fr d) = unheard d"
  by (simp add: unheard_def)

lemma decide_unheard:
  assumes "\<not> isReleased d" "unheard d"
  shows "\<exists>r d'. decide now d = Inr (r, d') \<and> status r \<noteq> End \<and> unheard d'
           \<and> speechThreshold d' = speechThreshold d \<and> live d' = live d"
  using assms
  by (simp add: decide_def Let_def continue_def finish_live unheard_def live_def)

lemma processFrame_unheard:
  assumes "live d" "unheard d" "no_speech_observed (speechThreshold d) evs"
  shows "\<exists>r d'. processFrame now fr evs d = Inr (r, d') \<and> status r \<noteq> End \<and> unheard d'
           \<and> speechThreshold d' = speechThreshold d \<and> live d'"
proof -
  let ?m = "processAudio evs (buffer_frame now fr d)"
  have "unheard ?m"
    using assms by (intro processAudio_unheard) (simp_all add: buffer_frame_unheard)
  moreover have "\<not> isReleased ?m" "live ?m"
    using assms(1) by (simp_all add: live_def)
  ultimately show ?thesis
    using decide_unheard [of ?m now] assms(1) by (auto simp: processFrame_live)
qed

text \<open>
  Claim C6. Before any speech has been observed in the current recording, a frame never
  starts the silence timer and never returns \<open>end\<close>. The run starts from a live detector in
  which the speech flag is unset and no silence timer runs (as after \<open>create\<close>, \<open>reset\<close>
  or a terminal result). As long as the package fires no speech-start callback and
  reports no probability above the onset threshold, every call returns a result, none of
  them is \<open>end\<close>, and after each call the silence timer is unset and \<open>hasSpeech\<close> is
  false.
\<close>

theorem no_end_before_speech:
  assumes "live d" "unheard d"
    and "list_all (\<lambda>(now, fr, evs). no_speech_observed (speechThreshold d) evs) ins"
  shows "length (trace_vad d ins) = length ins \<and> list_all never_end (trace_vad d ins)"
  using assms
proof (induction ins arbitrary: d)
  case Nil
  then show ?case by simp
next
  case (Cons x ins)
  obtain now fr evs where x: "x = (now, fr, evs)"
    by (cases x) auto
  from Cons.prems x have q: "no_speech_observed (speechThreshold d) evs"
    by simp
  from processFrame_unheard [OF Cons.prems(1,2) q, of now fr]
  obtain r d' where step: "processFrame now fr evs d = Inr (r, d')"
    and r: "status r \<noteq> End" and u: "unheard d'"
    and thr: "speechThreshold d' = speechThreshold d" and l: "live d'"
    by blast
  from Cons.prems(3) thr
  have "list_all (\<lambda>(now, fr, evs). no_speech_observed (speechThreshold d') evs) ins"
    by simp
  from Cons.IH [OF l u this] step r u x show ?case
    by (simp add: never_end_def unheard_def hasSpeech_def)
qed

text \<open>
  An instance: three frames through the default detector, one of them with a
  probability just below the onset threshold.
\<close>

theorem no_end_before_speech_witness:
  "live default_detector \<and> unheard default_detector
   \<and> length (trace_vad default_detector
        [(1000, zero_frame, [FrameProcessed 0.1]), (1096, zero_frame, [FrameProcessed 0.45]),
         (1192, zero_frame, [FrameProcessed 0.2, VADMisfire])]) = 3
   \<and> list_all never_end (trace_vad default_detector
        [(1000, zero_frame, [FrameProcessed 0.1]), (1096, zero_frame, [FrameProcessed 0.45]),
         (1192, zero_frame, [FrameProcessed 0.2, VADMisfire])])"
proof -
  have l: "live default_detector" and u: "unheard default_detector"
    by (simp_all add: live_def unheard_def default_detector_def)
  have q: "list_all (\<lambda>(now, fr, evs). no_speech_observed (speechThreshold default_detector) evs)
        [(1000, zero_frame, [FrameProcessed 0.1]), (1096, zero_frame, [FrameProcessed 0.45]),
         (1192, zero_frame, [FrameProcessed 0.2, VADMisfire])]"
    by (simp add: no_speech_observed_def default_detector_def)
  from no_end_before_speech [OF l u q] l u show ?thesis
    by simp
qed

subsection \<open>The limit on the recording\<close>

lemma all_continue_simps [simp]:
  "all_continue []"
  "\<not> all_continue (Inl e # tr)"
  "all_continue (Inr (r, d) # tr) \<longleftrightarrow> status r = Continue \<and> all_continue tr"
  by (simp_all add: all_continue_def)

lemma all_continue_step:
  assumes "all_continue (trace_vad d ((t, f, es) # ins))"
  obtains r1 d1 where "processFrame t f es d = Inr (r1, d1)" "status r1 = Continue"
    "all_continue (trace_vad d1 ins)"
proof (cases "processFrame t f es d")
  case (Inl e)
  with assms show ?thesis by simp
next
  case (Inr p)
  with assms that show ?thesis by (cases p) simp
qed

lemma decide_continue_keeps:
  assumes "\<not> isReleased d" "decide now d = Inr (r, d')" "status r = Continue"
  shows "audioBuffer d' = audioBuffer d \<and> recordingStartTime d' = recordingStartTime d"
  using assms
  by (auto simp: decide_def Let_def continue_def finish_live split: if_splits)

lemma processFrame_continue:
  assumes "processFrame now fr evs d = Inr (r, d')" "status r = Continue"
  shows "audioBuffer d' = audioBuffer d @ [fr] \<and> recordingStartTime d' = Some (started d now)
    \<and> live d' \<and> maxRecordingDuration d' = maxRecordingDuration d"
proof -
  from processFrame_config [OF assms(1)] have l: "live d" "live d'"
    and m: "maxRecordingDuration d' = maxRecordingDuration d"
    by simp_all
  let ?m = "processAudio evs (buffer_frame now fr d)"
  from assms(1) l have "decide now ?m = Inr (r, d')"
    by (simp add: processFrame_live)
  moreover from l have "\<not> isReleased ?m"
    by (simp add: live_def)
  ultimately show ?thesis
    using decide_continue_keeps [of ?m now r d'] assms(2) l m
    by (simp add: started_def)
qed

lemma processFrame_timeout:
  assumes "live d" "real_of_int (now - started d now) > maxRecordingDuration d"
  shows "\<exists>r d'. processFrame now fr evs d = Inr (r, d') \<and> status r = Timeout
           \<and> audio r = Some (concat (audioBuffer d @ [fr]))"
proof -
  let ?m = "processAudio evs (buffer_frame now fr d)"
  have "\<not> isReleased ?m" "js_time (recordingStartTime ?m) = started d now"
    "maxRecordingDuration ?m = maxRecordingDuration d" "audioBuffer ?m = audioBuffer d @ [fr]"
    using assms(1) by (simp_all add: live_def js_time_def started_def)
  with assms show ?thesis
    by (simp add: processFrame_live decide_def finish_live)
qed

lemma run_timeout:
  assumes "live d" "all_continue (trace_vad d ins)"
    and "real_of_int (now - started d (first_time ins now)) > maxRecordingDuration d"
  shows "\<exists>r d'. trace_vad d (ins @ [(now, fr, evs)]) = trace_vad d ins @ [Inr (r, d')]
           \<and> status r = Timeout
           \<and> audio r = Some (concat (audioBuffer d @ frames_of ins @ [fr]))"
  using assms
proof (induction ins arbitrary: d)
  case Nil
  from processFrame_timeout [of d now fr evs] Nil show ?case
    by (auto simp: first_time_def frames_of_def)
next
  case (Cons x ins)
  obtain t f es where x: "x = (t, f, es)"
    by (cases x) auto
  from Cons.prems(2) x have "all_continue (trace_vad d ((t, f, es) # ins))"
    by simp
  then obtain r1 d1 where step: "processFrame t f es d = Inr (r1, d1)"
    and c1: "status r1 = Continue" and rest: "all_continue (trace_vad d1 ins)"
    by (rule all_continue_step)
  from processFrame_continue [OF step c1]
  have b: "audioBuffer d1 = audioBuffer d @ [f]"
    and s: "recordingStartTime d1 = Some (started d t)"
    and l: "live d1" and m: "maxRecordingDuration d1 = maxRecordingDuration d"
    by simp_all
  from Cons.prems(3) x s m
  have "real_of_int (now - started d1 (first_time ins now)) > maxRecordingDuration d1"
    by (simp add: started_def first_time_def)
  from Cons.IH [OF l rest this] step b x show ?case
    by (simp add: frames_of_def)
qed

lemma processFrame_quiet_continue:
  assumes "live d" "unheard d" "no_speech_observed (speechThreshold d) evs"
    and "real_of_int (now - started d now) \<le> maxRecordingDuration d"
  shows "\<exists>r d'. processFrame now fr evs d = Inr (r, d') \<and> status r = Continue \<and> unheard d'
           \<and> speechThreshold d' = speechThreshold d"
proof -
  let ?m = "processAudio evs (buffer_frame now fr d)"
  have "unheard ?m"
    using assms by (intro processAudio_unheard) (simp_all add: buffer_frame_unheard)
  moreover have "\<not> isReleased ?m" "js_time (recordingStartTime ?m) = started d now"
    "maxRecordingDuration ?m = maxRecordingDuration d"
    using assms(1) by (simp_all add: live_def js_time_def started_def)
  ultimately show ?thesis
    using assms(1,4)
    by (simp add: processFrame_live decide_def Let_def continue_def unheard_def)
qed

lemma quiet_all_continue:
  assumes "live d" "unheard d"
    and "list_all (\<lambda>(t, f, es). no_speech_observed (speechThreshold d) es
           \<and> real_of_int (t - started d (first_time ins now)) \<le> maxRecordingDuration d) ins"
  shows "all_continue (trace_vad d ins)"
  using assms
proof (induction ins arbitrary: d)
  case Nil
  then show ?case by simp
next
  case (Cons x ins)
  obtain t f es where x: "x = (t, f, es)"
    by (cases x) auto
  from Cons.prems(3) x have q: "no_speech_observed (speechThreshold d) es"
    and e: "real_of_int (t - started d t) \<le> maxRecordingDuration d"
    by (simp_all add: first_time_def)
  from processFrame_quiet_continue [OF Cons.prems(1,2) q e, of f]
  obtain r1 d1 where step: "processFrame t f es d = Inr (r1, d1)"
    and c1: "status r1 = Continue" and u: "unheard d1"
    and thr: "speechThreshold d1 = speechThreshold d"
    by blast
  from processFrame_continue [OF step c1]
  have s: "recordingStartTime d1 = Some (started d t)"
    and l: "live d1" and m: "maxRecordingDuration d1 = maxRecordingDuration d"
    by simp_all
  from Cons.prems(3) x s m thr
  have "list_all (\<lambda>(t, f, es). no_speech_observed (speechThreshold d1) es
           \<and> real_of_int (t - started d1 (first_time ins now)) \<le> maxRecordingDuration d1) ins"
    by (simp add: started_def first_time_def)
  from Cons.IH [OF l u this] step c1 x show ?case
    by simp
qed

lemma concat_silence:
  "list_all (\<lambda>f. f = replicate n (0::sample)) fs \<Longrightarrow> concat fs = replicate (length fs * n) 0"
  by (induction fs) (simp_all add: replicate_add)

text \<open>
  Claim C3. The run starts from a live detector with no recording under way, and \<open>now\<close>
  is the first clock reading at which the time since the first frame exceeds
  \<open>maxRecordingDuration\<close>. First part: whatever the speech state, when the frames before
  have all returned \<open>continue\<close> (the recording is still the one the first frame began),
  the frame at \<open>now\<close> returns \<open>timeout\<close> with the concatenation of every frame fed since
  the first, itself included. Second part (scenario A): when the frames are all-zero
  frames of \<open>n\<close> samples in which the package observes no speech, and the frames before lie
  within \<open>maxRecordingDuration\<close> of the first, each of them returns \<open>continue\<close> and the
  frame at \<open>now\<close> returns \<open>timeout\<close> with an all-zero buffer of \<open>n\<close> samples per frame.
\<close>

theorem timeout_carries_recording:
  assumes "live d" "cleared d"
    and "real_of_int (now - first_time ins now) > maxRecordingDuration d"
  shows "(all_continue (trace_vad d ins) \<longrightarrow>
           (\<exists>r d'. trace_vad d (ins @ [(now, fr, evs)]) = trace_vad d ins @ [Inr (r, d')]
              \<and> status r = Timeout \<and> audio r = Some (concat (frames_of ins @ [fr]))))
       \<and> (list_all (\<lambda>(t, f, es). no_speech_observed (speechThreshold d) es
              \<and> real_of_int (t - first_time ins now) \<le> maxRecordingDuration d
              \<and> f = replicate n 0) ins \<and> fr = replicate n 0 \<longrightarrow>
           all_continue (trace_vad d ins)
           \<and> (\<exists>r d'. trace_vad d (ins @ [(now, fr, evs)]) = trace_vad d ins @ [Inr (r, d')]
              \<and> status r = Timeout \<and> audio r = Some (replicate ((length ins + 1) * n) 0)))"
proof -
  from assms(2) have st: "started d t = t" for t
    by (simp add: started_def cleared_def)
  from assms(2) have buf: "audioBuffer d = []" and u: "unheard d"
    by (simp_all add: cleared_def unheard_def)
  have general: "\<exists>r d'. trace_vad d (ins @ [(now, fr, evs)]) = trace_vad d ins @ [Inr (r, d')]
              \<and> status r = Timeout \<and> audio r = Some (concat (frames_of ins @ [fr]))"
    if "all_continue (trace_vad d ins)"
    using run_timeout [OF assms(1) that, of now fr evs] assms(3) st buf by simp
  have quiet: "all_continue (trace_vad d ins)
      \<and> (\<exists>r d'. trace_vad d (ins @ [(now, fr, evs)]) = trace_vad d ins @ [Inr (r, d')]
              \<and> status r = Timeout \<and> audio r = Some (replicate ((length ins + 1) * n) 0))"
    if h: "list_all (\<lambda>(t, f, es). no_speech_observed (speechThreshold d) es
              \<and> real_of_int (t - first_time ins now) \<le> maxRecordingDuration d
              \<and> f = replicate n 0) ins" and z: "fr = replicate n 0"
  proof -
    from h have "list_all (\<lambda>(t, f, es). no_speech_observed (speechThreshold d) es
           \<and> real_of_int (t - started d (first_time ins now)) \<le> maxRecordingDuration d) ins"
      by (simp add: st list_all_iff split_beta)
    from quiet_all_continue [OF assms(1) u this] have ac: "all_continue (trace_vad d ins)" .
    from h z have "list_all (\<lambda>f. f = replicate n 0) (frames_of ins @ [fr])"
      by (simp add: frames_of_def list_all_iff split_beta)
    from concat_silence [OF this]
    have "concat (frames_of ins @ [fr]) = replicate ((length ins + 1) * n) 0"
      by (simp add: frames_of_def)
    with general [OF ac] ac show ?thesis by simp
  qed
  from general quiet show ?thesis by blast
qed

text \<open>
  An instance: three all-zero frames through the default detector, the third 30001 ms
  after the first.
\<close>

theorem timeout_carries_recording_witness:
  "live default_detector \<and> cleared default_detector
   \<and> real_of_int (31001 - 1000) > maxRecordingDuration default_detector
   \<and> all_continue (trace_vad default_detector
        [(1000, zero_frame, [FrameProcessed 0.1]), (15000, zero_frame, [FrameProcessed 0.1])])
   \<and> (\<exists>r d'. trace_vad default_detector
           [(1000, zero_frame, [FrameProcessed 0.1]), (15000, zero_frame, [FrameProcessed 0.1]),
            (31001, zero_frame, [FrameProcessed 0.1])]
         = trace_vad default_detector
           [(1000, zero_frame, [FrameProcessed 0.1]), (15000, zero_frame, [FrameProcessed 0.1])]
           @ [Inr (r, d')]
       \<and> status r = Timeout \<and> audio r = Some (replicate (3 * VAD_FRAME_SAMPLES) 0))"
proof -
  let ?ins = "[(1000, zero_frame, [FrameProcessed 0.1]), (15000, zero_frame, [FrameProcessed 0.1])]
     :: vad_input list"
  have l: "live default_detector" and c: "cleared default_detector"
    by (simp_all add: live_def cleared_def default_detector_def)
  have m: "real_of_int (31001 - 1000) > maxRecordingDuration default_detector"
    by (simp add: default_detector_def)
  have t: "real_of_int (31001 - first_time ?ins 31001) > maxRecordingDuration default_detector"
    by (simp add: first_time_def default_detector_def)
  have q: "list_all (\<lambda>(t, f, es). no_speech_observed (speechThreshold default_detector) es
              \<and> real_of_int (t - first_time ?ins 31001) \<le> maxRecordingDuration default_detector
              \<and> f = replicate VAD_FRAME_SAMPLES 0) ?ins \<and> zero_frame = replicate VAD_FRAME_SAMPLES 0"
    by (simp add: no_speech_observed_def default_detector_def first_time_def zero_frame_def)
  have n: "(length ?ins + 1) * VAD_FRAME_SAMPLES = 3 * VAD_FRAME_SAMPLES"
    by simp
  have a: "?ins @ [(31001, zero_frame, [FrameProcessed 0.1])]
      = [(1000, zero_frame, [FrameProcessed 0.1]), (15000, zero_frame, [FrameProcessed 0.1]),
         (31001, zero_frame, [FrameProcessed 0.1])]"
    by simp
  from timeout_carries_recording
      [OF l c t, of zero_frame "[FrameProcessed 0.1]" VAD_FRAME_SAMPLES, THEN conjunct2, THEN mp, OF q]
  have "all_continue (trace_vad default_detector ?ins)
      \<and> (\<exists>r d'. trace_vad default_detector (?ins @ [(31001, zero_frame, [FrameProcessed 0.1])])
             = trace_vad default_detector ?ins @ [Inr (r, d')]
            \<and> status r = Timeout
            \<and> audio r = Some (replicate ((length ?ins + 1) * VAD_FRAME_SAMPLES) 0))" .
  then have "all_continue (trace_vad default_detector ?ins)
      \<and> (\<exists>r d'. trace_vad default_detector
               [(1000, zero_frame, [FrameProcessed 0.1]), (15000, zero_frame, [FrameProcessed 0.1]),
                (31001, zero_frame, [FrameProcessed 0.1])]
             = trace_vad default_detector ?ins @ [Inr (r, d')]
            \<and> status r = Timeout
            \<and> audio r = Some (replicate (3 * VAD_FRAME_SAMPLES) 0))"
    unfolding n a .
  with l c m show ?thesis
    by blast
qed

subsection \<open>The two thresholds\<close>

lemma fire_silenceThreshold:
  "fire e (d\<lparr>silenceThreshold := x\<rparr>) = (fire e d)\<lparr>silenceThreshold := x\<rparr>"
  by (cases e) simp_all

lemma processAudio_silenceThreshold:
  "processAudio evs (d\<lparr>silenceThreshold := x\<rparr>) = (processAudio evs d)\<lparr>silenceThreshold := x\<rparr>"
  unfolding processAudio_def
  by (induction evs arbitrary: d) (simp_all add: fire_silenceThreshold)

lemma buffer_frame_silenceThreshold:
  "buffer_frame now fr (d\<lparr>silenceThreshold := x\<rparr>) = (buffer_frame now fr d)\<lparr>silenceThreshold := x\<rparr>"
  by (simp add: buffer_frame_def Let_def)

lemma decide_silenceThreshold:
  assumes "\<not> isReleased d" "decide now d = Inr (r, d')"
  shows "decide now (d\<lparr>silenceThreshold := x\<rparr>) = Inr (r, d'\<lparr>silenceThreshold := x\<rparr>)"
  using assms
  by (auto simp: decide_def Let_def continue_def finish_live split: if_splits)

lemma decide_end:
  assumes "\<not> isReleased d" "decide now d = Inr (r, d')" "status r = End"
    and "0 \<le> silenceDuration d"
  shows "\<not> isSpeech r \<and> (\<exists>t0. silenceStartTime d = Some t0
           \<and> real_of_int (now - t0) > silenceDuration d)"
  using assms
  by (auto simp: decide_def Let_def continue_def finish_live js_time_def split: if_splits)

text \<open>
  When \<open>processFrame\<close> returns \<open>end\<close>. The offset threshold occurs in none of the
  conditions: a frame counts as speech by the onset threshold alone (line 174), and the
  end of speech is decided from that flag and the timers (lines 260 to 305). \<open>end\<close> is
  returned exactly when the recording has not timed out, the frame is not speech by the
  onset threshold, speech has been detected and has lasted at least \<open>minSpeechDuration\<close>,
  and the silence timer was started more than \<open>silenceDuration\<close> milliseconds before.
\<close>

lemma decide_end_iff:
  assumes "\<not> isReleased d" "0 \<le> silenceDuration d"
  shows "(\<exists>r d'. decide now d = Inr (r, d') \<and> status r = End) \<longleftrightarrow>
     \<not> real_of_int (now - js_time (recordingStartTime d)) > maxRecordingDuration d
     \<and> \<not> lastIsSpeech d \<and> hasDetectedSpeech d
     \<and> \<not> real_of_int (case speechStartTime d of None \<Rightarrow> 0
                          | Some t \<Rightarrow> if t = 0 then 0 else now - t) < minSpeechDuration d
     \<and> (\<exists>t0. silenceStartTime d = Some t0 \<and> real_of_int (now - t0) > silenceDuration d)"
  using assms
  by (auto simp: decide_def Let_def continue_def finish_live js_time_def split: if_splits)

lemma processFrame_end_iff:
  assumes "live d" "0 \<le> silenceDuration d"
  shows "(\<exists>r d'. processFrame now fr evs d = Inr (r, d') \<and> status r = End) \<longleftrightarrow>
     (let m = processAudio evs (buffer_frame now fr d)
      in \<not> real_of_int (now - js_time (recordingStartTime m)) > maxRecordingDuration d
         \<and> \<not> lastIsSpeech m \<and> hasDetectedSpeech m
         \<and> \<not> real_of_int (case speechStartTime m of None \<Rightarrow> 0
                              | Some t \<Rightarrow> if t = 0 then 0 else now - t) < minSpeechDuration d
         \<and> (\<exists>t0. silenceStartTime m = Some t0 \<and> real_of_int (now - t0) > silenceDuration d))"
proof -
  let ?m = "processAudio evs (buffer_frame now fr d)"
  from assms have "\<not> isReleased ?m" "0 \<le> silenceDuration ?m"
    by (simp_all add: live_def)
  from decide_end_iff [OF this, of now] assms(1) show ?thesis
    by (simp add: processFrame_live Let_def)
qed

text \<open>
  The offset threshold has no part in any result of \<open>processFrame\<close>: with another value
  \<open>x\<close> for it, the call returns the same result.
\<close>

lemma processFrame_ignores_silenceThreshold:
  assumes "processFrame now fr evs d = Inr (r, d')"
  shows "processFrame now fr evs (d\<lparr>silenceThreshold := x\<rparr>) = Inr (r, d'\<lparr>silenceThreshold := x\<rparr>)"
proof -
  let ?m = "processAudio evs (buffer_frame now fr d)"
  from processFrame_config [OF assms(1)] have l: "live d"
    by simp
  then have nr: "\<not> isReleased ?m"
    by (simp add: live_def)
  from assms(1) l have dec: "decide now ?m = Inr (r, d')"
    by (simp add: processFrame_live)
  from l have "live (d\<lparr>silenceThreshold := x\<rparr>)"
    by (simp add: live_def)
  then show ?thesis
    using decide_silenceThreshold [OF nr dec, of x]
    by (simp add: processFrame_live buffer_frame_silenceThreshold processAudio_silenceThreshold)
qed

text \<open>
  An \<open>end\<close> seen from the detector the frame was fed to: the frame is not speech by the
  onset threshold, and the silence timer was started by an earlier frame.
\<close>

lemma end_only_after_silence:
  assumes "processFrame now fr evs d = Inr (r, d')" "status r = End"
    and "0 \<le> silenceDuration d"
  shows "\<not> isSpeech r
     \<and> (\<exists>t0. silenceStartTime d = Some t0 \<and> real_of_int (now - t0) > silenceDuration d)"
proof -
  let ?m = "processAudio evs (buffer_frame now fr d)"
  from processFrame_config [OF assms(1)] have l: "live d"
    by simp
  then have nr: "\<not> isReleased ?m"
    by (simp add: live_def)
  from assms(1) l have dec: "decide now ?m = Inr (r, d')"
    by (simp add: processFrame_live)
  from decide_end [OF nr dec assms(2)] assms(3)
  obtain t0 where ns: "\<not> isSpeech r" and t0: "silenceStartTime ?m = Some t0"
    and gt: "real_of_int (now - t0) > silenceDuration d"
    by auto
  from processAudio_silence_cases [of evs "buffer_frame now fr d"] t0
  have "silenceStartTime d = Some t0"
    by auto
  then show ?thesis
    using ns gt by simp
qed

text \<open>
  Claim C1. A probability sequence that, after speech has begun, dips below the onset
  threshold but stays strictly above the offset threshold never makes \<open>processFrame\<close>
  return \<open>end\<close>. The code does otherwise. Its options document \<open>silenceThreshold\<close> as the
  ``threshold for detecting speech end'' (line 58; ``probability threshold for speech
  end'' in \<open>specs/voice-activity-detection.md\<close>), and the callback for the end of speech
  says that it ``is handled in processFrame'' (line 185); but \<open>processFrame\<close> decides the
  end of speech from \<open>probability > speechThreshold\<close> alone. On the default detector
  (onset 0.5, offset 0.35), with frames 96 ms apart: three frames of speech, then a dip to
  probability 0.4, strictly between the two thresholds, during which the package fires
  the per-frame callback only. The first eleven frames return \<open>continue\<close>; the twelfth,
  768 ms into the dip, returns \<open>end\<close>.
\<close>

theorem hysteresis_counterexample:
  "silenceThreshold default_detector < 0.4 \<and> 0.4 < speechThreshold default_detector
   \<and> map result_status
       (trace_vad default_detector
          [(1000, zero_frame, [FrameProcessed 0.9, SpeechStart 1000]),
           (1096, zero_frame, [FrameProcessed 0.9]),
           (1192, zero_frame, [FrameProcessed 0.9]),
           (1288, zero_frame, [FrameProcessed 0.4]),
           (1384, zero_frame, [FrameProcessed 0.4]),
           (1480, zero_frame, [FrameProcessed 0.4]),
           (1576, zero_frame, [FrameProcessed 0.4]),
           (1672, zero_frame, [FrameProcessed 0.4]),
           (1768, zero_frame, [FrameProcessed 0.4]),
           (1864, zero_frame, [FrameProcessed 0.4]),
           (1960, zero_frame, [FrameProcessed 0.4]),
           (2056, zero_frame, [FrameProcessed 0.4])])
     = [Some Continue, Some Continue, Some Continue, Some Continue, Some Continue,
        Some Continue, Some Continue, Some Continue, Some Continue, Some Continue,
        Some Continue, Some End]"
  by (simp add: vad_eval)

subsection \<open>Validation of the options\<close>

text \<open>
  Claim C4 at the options \<open>{ minSpeechDuration: -1 }\<close>: \<open>create\<close> returns a detector. The
  constructor checks the two thresholds, \<open>silenceDuration\<close> and \<open>maxRecordingDuration\<close>;
  it has no check of \<open>minSpeechDuration\<close>.
\<close>

theorem create_accepts_negative_minSpeechDuration:
  "vad_create (default_options\<lparr>minSpeechDuration_opt := Some (- 1)\<rparr>) None
     = Inr (default_detector\<lparr>minSpeechDuration := - 1\<rparr>)"
  by (simp add: vad_create_def vad_constructor_def vad_initialize_def default_options_def
      nullish_def default_detector_def TARGET_SAMPLE_RATE_def Let_def)

text \<open>
  What the constructor rejects.
\<close>

lemma vad_constructor_fails_iff:
  "(\<exists>e. vad_constructor options = Inl e) \<longleftrightarrow>
     nullish (speechThreshold_opt options) 0.5 < 0 \<or> nullish (speechThreshold_opt options) 0.5 > 1
     \<or> nullish (silenceThreshold_opt options) 0.35 < 0 \<or> nullish (silenceThreshold_opt options) 0.35 > 1
     \<or> nullish (silenceDuration_opt options) 700 < 0
     \<or> nullish (maxRecordingDuration_opt options) 30000 < 0"
  by (auto simp: vad_constructor_def Let_def)

section \<open>Properties of the wake word detector\<close>

lemma set_at_fits:
  "off + length src \<le> length dest \<Longrightarrow>
   set_at dest src off = Inr (take off dest @ src @ drop (off + length src) dest)"
  by (simp add: set_at_def)

lemma pack_concat:
  assumes "list_all (\<lambda>f. length f = w) rows" "(i + length rows) * w \<le> length data"
  shows "pack w rows i data = Inr (take (i * w) data @ concat rows @ drop ((i + length rows) * w) data)"
  using assms
proof (induction rows arbitrary: i data)
  case Nil
  then show ?case by simp
next
  case (Cons row rows)
  from Cons.prems have len: "length row = w" and rest: "list_all (\<lambda>f. length f = w) rows"
    by simp_all
  from Cons.prems(2) have fit: "i * w + w \<le> length data"
    by (simp add: algebra_simps) 
  let ?data' = "take (i * w) data @ row @ drop (i * w + w) data"
  from fit len have s: "set_at data row (i * w) = Inr ?data'"
    by (simp add: set_at_fits)
  from fit len have l': "length ?data' = length data"
    by simp
  with Cons.prems(2) have "(i + 1 + length rows) * w \<le> length ?data'"
    by (simp add: algebra_simps)
  from Cons.IH [OF rest this]
  have "pack w rows (i + 1) ?data'
      = Inr (take ((i + 1) * w) ?data' @ concat rows @ drop ((i + 1 + length rows) * w) ?data')" .
  moreover from fit len have "take ((i + 1) * w) ?data' = take (i * w) data @ row"
    by (simp add: algebra_simps)
  moreover from fit len have "drop ((i + 1 + length rows) * w) ?data'
      = drop ((i + length (row # rows)) * w) data"
    by (simp add: algebra_simps)
  ultimately show ?case
    using s by simp
qed

lemma pack_all:
  assumes "list_all (\<lambda>f. length f = w) rows"
  shows "pack w rows 0 (replicate (length rows * w) 0) = Inr (concat rows)"
proof -
  from assms have "length (concat rows) = length rows * w"
    by (induction rows) simp_all
  with pack_concat [OF assms, of 0 "replicate (length rows * w) 0"] show ?thesis
    by simp
qed

lemma computeMelspectrogram_shape:
  "computeMelspectrogram fround (Some ms) a = Inr frames
   \<Longrightarrow> list_all (\<lambda>f. length f = melBins) frames"
  by (auto simp: computeMelspectrogram_def Let_def list_all_iff melBins_def)

lemma computeMelspectrogram_total:
  "\<exists>frames. computeMelspectrogram fround (Some ms) a = Inr frames"
  by (simp add: computeMelspectrogram_def Let_def)

lemma computeEmbedding_window:
  assumes "list_all (\<lambda>f. length f = melBins) mb" "MEL_BUFFER_SIZE \<le> length mb"
  shows "computeEmbedding (Some es) mb = Inr (es (concat (window_at mb 0)))"
proof -
  let ?w = "take MEL_BUFFER_SIZE mb"
  from assms(2) have len: "length ?w = MEL_BUFFER_SIZE"
    by simp
  from assms(1) have "list_all (\<lambda>f. length f = melBins) ?w"
    by (auto simp: list_all_iff dest: in_set_takeD)
  from pack_all [OF this] len
  have "pack melBins ?w 0 (replicate (MEL_BUFFER_SIZE * melBins) 0) = Inr (concat ?w)"
    by simp
  with len show ?thesis
    by (simp add: computeEmbedding_def window_at_def Let_def)
qed

lemma windows_less: "n < MEL_BUFFER_SIZE \<Longrightarrow> windows n = 0"
  by (simp add: windows_def)

lemma windows_step:
  "MEL_BUFFER_SIZE \<le> n \<Longrightarrow> windows n = Suc (windows (n - EMBEDDING_WINDOW_SLIDE))"
  by (auto simp: windows_def MEL_BUFFER_SIZE_def EMBEDDING_WINDOW_SLIDE_def)

lemma window_at_drop:
  "window_at (drop EMBEDDING_WINDOW_SLIDE mb) i = window_at mb (Suc i)"
  by (simp add: window_at_def add.commute)

lemma embed_loop_closed:
  assumes "embeddingSession d = Some es" "list_all (\<lambda>f. length f = melBins) (melBuffer d)"
  shows "embed_loop d =
     Inr (d\<lparr>embeddingBuffer := embeddingBuffer d
               @ map (\<lambda>i. es (concat (window_at (melBuffer d) i))) [0..<windows (length (melBuffer d))],
            melBuffer := drop (EMBEDDING_WINDOW_SLIDE * windows (length (melBuffer d))) (melBuffer d)\<rparr>)"
  using assms
proof (induction d rule: embed_loop.induct)
  case (1 d)
  let ?mb = "melBuffer d"
  show ?case
  proof (cases "MEL_BUFFER_SIZE \<le> length ?mb")
    case False
    then show ?thesis
      by (simp add: embed_loop.simps [of d] windows_less)
  next
    case True
    let ?e = "es (concat (window_at ?mb 0))"
    let ?d' = "d\<lparr>embeddingBuffer := embeddingBuffer d @ [?e],
                  melBuffer := drop EMBEDDING_WINDOW_SLIDE ?mb\<rparr>"
    from computeEmbedding_window [OF "1.prems"(2) True, of es] "1.prems"(1)
    have ce: "computeEmbedding (embeddingSession d) ?mb = Inr ?e"
      by simp
    from "1.prems" have p': "embeddingSession ?d' = Some es"
        "list_all (\<lambda>f. length f = melBins) (melBuffer ?d')"
      by (auto simp: list_all_iff dest: in_set_dropD)
    from "1.IH" [OF True ce p'] have ih: "embed_loop ?d' =
       Inr (?d'\<lparr>embeddingBuffer := embeddingBuffer ?d'
               @ map (\<lambda>i. es (concat (window_at (melBuffer ?d') i))) [0..<windows (length (melBuffer ?d'))],
            melBuffer := drop (EMBEDDING_WINDOW_SLIDE * windows (length (melBuffer ?d'))) (melBuffer ?d')\<rparr>)" .
    have w: "windows (length ?mb) = Suc (windows (length ?mb - EMBEDDING_WINDOW_SLIDE))"
      using True by (rule windows_step)
    have m: "map (\<lambda>i. es (concat (window_at ?mb i))) [0..<Suc k]
       = ?e # map (\<lambda>i. es (concat (window_at (drop EMBEDDING_WINDOW_SLIDE ?mb) i))) [0..<k]" for k
      by (simp add: window_at_drop map_upt_Suc del: upt_Suc)
    from True ce ih show ?thesis
      by (simp add: embed_loop.simps [of d] w m add.commute del: upt_Suc)
  qed
qed

lemma embed_loop_below:
  "length (drop (EMBEDDING_WINDOW_SLIDE * windows n) (mb :: tensor list)) < MEL_BUFFER_SIZE"
  if "length mb = n"
  using that
  by (auto simp: windows_def MEL_BUFFER_SIZE_def EMBEDDING_WINDOW_SLIDE_def)

lemma computeWakeWordScore_window:
  assumes "list_all (\<lambda>e. length e = embeddingSize) eb" "requiredEmbeddings \<le> length eb"
  shows "computeWakeWordScore (Some ws) eb =
     Inr (last_score (ws (concat (drop (length eb - requiredEmbeddings) eb))))"
proof -
  let ?w = "drop (length eb - requiredEmbeddings) eb"
  from assms(2) have len: "length ?w = 16"
    by (simp add: requiredEmbeddings_def)
  from assms(1) have "list_all (\<lambda>e. length e = embeddingSize) ?w"
    by (auto simp: list_all_iff dest: in_set_dropD)
  from pack_all [OF this] len
  have "pack embeddingSize ?w 0 (replicate (16 * embeddingSize) 0) = Inr (concat ?w)"
    by simp
  with len show ?thesis
    by (simp add: computeWakeWordScore_def Let_def requiredEmbeddings_def)
qed

text \<open>
  Claim C2. One call of \<open>processFrame\<close> with a frame of the required length, on a
  detector that is initialized and not released and holds tensors of the shapes the
  models produce. Let \<open>mb\<close> be the mel window with the new mel frames appended and
  \<open>k = windows (length mb)\<close> the number of times the loop finds the window at its
  capacity of 76. The embedding stage runs \<open>k\<close> times, the \<open>i\<close>-th time over the 76 frames
  that start at frame \<open>8 * i\<close>, and each time appends one embedding; the mel window that
  remains is \<open>mb\<close> without its first \<open>8 * k\<close> frames, and is below capacity. If fewer than
  16 embeddings are then held, the call returns false. Otherwise the classification runs
  over the last 16 embeddings and the embedding window loses its first entry; the call
  returns true with both windows empty if the score, the last value the classifier
  returns, is greater than the sensitivity, and returns false if it is not (or if the
  classifier returns no value).
\<close>

theorem processFrame_windows:
  assumes "ready d ms es ws" "\<And>x. length (es x) = embeddingSize" "length fr = FRAME_LENGTH"
  shows "\<exists>melFrames.
     computeMelspectrogram fround (melSession d) (normalize fround fr) = Inr melFrames \<and>
     (let mb = melBuffer d @ melFrames;
          k = windows (length mb);
          eb = embeddingBuffer d @ map (\<lambda>i. es (concat (window_at mb i))) [0..<k];
          mb' = drop (EMBEDDING_WINDOW_SLIDE * k) mb;
          scores = ws (concat (drop (length eb - requiredEmbeddings) eb))
      in length mb' < MEL_BUFFER_SIZE \<and>
         ww_processFrame fround fr d =
           (if length eb < requiredEmbeddings
            then Inr (False, d\<lparr>melBuffer := mb', embeddingBuffer := eb\<rparr>)
            else if scores \<noteq> [] \<and> last scores > sensitivity d
            then Inr (True, d\<lparr>melBuffer := [], embeddingBuffer := []\<rparr>)
            else Inr (False, d\<lparr>melBuffer := mb', embeddingBuffer := drop 1 eb\<rparr>)))"
proof -
  from assms(1) have live: "\<not> ww_isReleased d" "ww_isInitialized d"
    and ss: "melSession d = Some ms" "embeddingSession d = Some es" "wakeWordSession d = Some ws"
    and shm: "list_all (\<lambda>f. length f = melBins) (melBuffer d)"
    and she: "list_all (\<lambda>e. length e = embeddingSize) (embeddingBuffer d)"
    by (simp_all add: ready_def)
  obtain melFrames
    where mel: "computeMelspectrogram fround (Some ms) (normalize fround fr) = Inr melFrames"
    using computeMelspectrogram_total by blast
  from computeMelspectrogram_shape [OF mel] have shf: "list_all (\<lambda>f. length f = melBins) melFrames" .
  define mb where "mb = melBuffer d @ melFrames"
  define k where "k = windows (length mb)"
  define eb where "eb = embeddingBuffer d @ map (\<lambda>i. es (concat (window_at mb i))) [0..<k]"
  define mb' where "mb' = drop (EMBEDDING_WINDOW_SLIDE * k) mb"
  define scores where "scores = ws (concat (drop (length eb - requiredEmbeddings) eb))"
  let ?d0 = "d\<lparr>melBuffer := mb\<rparr>"
  from shm shf have "list_all (\<lambda>f. length f = melBins) (melBuffer ?d0)"
    by (simp add: mb_def)
  with embed_loop_closed [of ?d0 es] ss(2)
  have loop: "embed_loop ?d0 = Inr (d\<lparr>melBuffer := mb', embeddingBuffer := eb\<rparr>)"
    by (simp add: mb'_def eb_def k_def)
  have below: "length mb' < MEL_BUFFER_SIZE"
    unfolding mb'_def k_def by (rule embed_loop_below) simp
  from she assms(2) have sheb: "list_all (\<lambda>e. length e = embeddingSize) eb"
    by (auto simp: eb_def list_all_iff)
  have decision: "exceeds (last_score scores) (sensitivity d)
      \<longleftrightarrow> scores \<noteq> [] \<and> last scores > sensitivity d"
    by (simp add: exceeds_def last_score_def)
  have main: "ww_processFrame fround fr d =
           (if length eb < requiredEmbeddings
            then Inr (False, d\<lparr>melBuffer := mb', embeddingBuffer := eb\<rparr>)
            else if scores \<noteq> [] \<and> last scores > sensitivity d
            then Inr (True, d\<lparr>melBuffer := [], embeddingBuffer := []\<rparr>)
            else Inr (False, d\<lparr>melBuffer := mb', embeddingBuffer := drop 1 eb\<rparr>))"
  proof (cases "length eb < requiredEmbeddings")
    case True
    with live assms(3) mel ss loop show ?thesis
      by (simp add: ww_processFrame_def mb_def [symmetric])
  next
    case False
    then have "requiredEmbeddings \<le> length eb"
      by simp
    from computeWakeWordScore_window [OF sheb this, of ws] False live assms(3) mel ss loop
    show ?thesis
      unfolding decision [symmetric]
      by (simp add: ww_processFrame_def mb_def [symmetric] Let_def scores_def)
  qed
  from mel ss
  have "computeMelspectrogram fround (melSession d) (normalize fround fr) = Inr melFrames"
    by simp
  moreover have "let mb = melBuffer d @ melFrames;
          k = windows (length mb);
          eb = embeddingBuffer d @ map (\<lambda>i. es (concat (window_at mb i))) [0..<k];
          mb' = drop (EMBEDDING_WINDOW_SLIDE * k) mb;
          scores = ws (concat (drop (length eb - requiredEmbeddings) eb))
      in length mb' < MEL_BUFFER_SIZE \<and>
         ww_processFrame fround fr d =
           (if length eb < requiredEmbeddings
            then Inr (False, d\<lparr>melBuffer := mb', embeddingBuffer := eb\<rparr>)
            else if scores \<noteq> [] \<and> last scores > sensitivity d
            then Inr (True, d\<lparr>melBuffer := [], embeddingBuffer := []\<rparr>)
            else Inr (False, d\<lparr>melBuffer := mb', embeddingBuffer := drop 1 eb\<rparr>))"
    unfolding Let_def
    unfolding mb_def [symmetric]
    unfolding k_def [symmetric]
    unfolding eb_def [symmetric] mb'_def [symmetric]
    unfolding scores_def [symmetric]
    using below main by (rule conjI)
  ultimately show ?thesis
    by blast
qed

text \<open>
  Two instances, with the sample sessions (classifier score 0.9) and a rounding that
  leaves the values of this run as they are. The frame completes the first mel window
  and the sixteenth embedding. With sensitivity 0.5 the call returns true and clears both
  windows; with sensitivity 0.95 it returns false, the mel window keeps 72 frames and the
  embedding window 15 embeddings.
\<close>

theorem processFrame_windows_witness:
  "ready sample_detector (fst sample_sessions) (fst (snd sample_sessions)) (snd (snd sample_sessions))
   \<and> ready (sample_detector\<lparr>sensitivity := 0.95\<rparr>)
        (fst sample_sessions) (fst (snd sample_sessions)) (snd (snd sample_sessions))
   \<and> length (replicate 1280 (0 :: sample)) = FRAME_LENGTH
   \<and> ww_processFrame (\<lambda>v. v) (replicate 1280 0) sample_detector
       = Inr (True, sample_detector\<lparr>melBuffer := [], embeddingBuffer := []\<rparr>)
   \<and> (case ww_processFrame (\<lambda>v. v) (replicate 1280 0) (sample_detector\<lparr>sensitivity := 0.95\<rparr>) of
        Inl e \<Rightarrow> False
      | Inr (b, d') \<Rightarrow> \<not> b \<and> length (melBuffer d') = 72 \<and> length (embeddingBuffer d') = 15)"
proof -
  let ?ms = "fst sample_sessions" and ?es = "fst (snd sample_sessions)"
    and ?ws = "snd (snd sample_sessions)"
  let ?fr = "replicate 1280 (0 :: sample)"
  let ?quiet = "sample_detector\<lparr>sensitivity := 0.95\<rparr>"
  have r: "ready sample_detector ?ms ?es ?ws" and r': "ready ?quiet ?ms ?es ?ws"
    by (simp_all add: ready_def sample_detector_def sample_sessions_def melBins_def
        embeddingSize_def list_all_iff)
  have e: "length (?es x) = embeddingSize" for x
    by (simp add: sample_sessions_def embeddingSize_def)
  have f: "length ?fr = FRAME_LENGTH"
    by (simp add: FRAME_LENGTH_def)
  have k: "windows (75 + 5) = 1"
    by (simp add: windows_def MEL_BUFFER_SIZE_def EMBEDDING_WINDOW_SLIDE_def)
  have facts: "length (melBuffer sample_detector) = 75"
    "length (embeddingBuffer sample_detector) = 15"
    "sensitivity sample_detector = 0.5" "?ws z = [0.9]" for z
    by (simp_all add: sample_detector_def sample_sessions_def)
  have len: "length melFrames = 5"
    if "computeMelspectrogram (\<lambda>v. v) (Some ?ms) (normalize (\<lambda>v. v) ?fr) = Inr melFrames"
    for melFrames
    using that
    by (auto simp: computeMelspectrogram_def sample_sessions_def Let_def melBins_def)
  have ms: "melSession sample_detector = Some ?ms" "melSession ?quiet = Some ?ms"
    by (simp_all add: sample_detector_def)
  from processFrame_windows [OF r e f, of "\<lambda>v. v"]
  obtain melFrames where
    mel: "computeMelspectrogram (\<lambda>v. v) (melSession sample_detector) (normalize (\<lambda>v. v) ?fr)
            = Inr melFrames"
    and rest: "let mb = melBuffer sample_detector @ melFrames;
          k = windows (length mb);
          eb = embeddingBuffer sample_detector @ map (\<lambda>i. ?es (concat (window_at mb i))) [0..<k];
          mb' = drop (EMBEDDING_WINDOW_SLIDE * k) mb;
          scores = ?ws (concat (drop (length eb - requiredEmbeddings) eb))
      in length mb' < MEL_BUFFER_SIZE \<and>
         ww_processFrame (\<lambda>v. v) ?fr sample_detector =
           (if length eb < requiredEmbeddings
            then Inr (False, sample_detector\<lparr>melBuffer := mb', embeddingBuffer := eb\<rparr>)
            else if scores \<noteq> [] \<and> last scores > sensitivity sample_detector
            then Inr (True, sample_detector\<lparr>melBuffer := [], embeddingBuffer := []\<rparr>)
            else Inr (False, sample_detector\<lparr>melBuffer := mb', embeddingBuffer := drop 1 eb\<rparr>))"
    by blast
  from mel ms have "length melFrames = 5"
    by (intro len) simp
  with rest k facts have first: "ww_processFrame (\<lambda>v. v) ?fr sample_detector
       = Inr (True, sample_detector\<lparr>melBuffer := [], embeddingBuffer := []\<rparr>)"
    by (simp add: Let_def requiredEmbeddings_def)
  from processFrame_windows [OF r' e f, of "\<lambda>v. v"]
  obtain melFrames' where
    mel': "computeMelspectrogram (\<lambda>v. v) (melSession ?quiet) (normalize (\<lambda>v. v) ?fr)
            = Inr melFrames'"
    and rest': "let mb = melBuffer ?quiet @ melFrames';
          k = windows (length mb);
          eb = embeddingBuffer ?quiet @ map (\<lambda>i. ?es (concat (window_at mb i))) [0..<k];
          mb' = drop (EMBEDDING_WINDOW_SLIDE * k) mb;
          scores = ?ws (concat (drop (length eb - requiredEmbeddings) eb))
      in length mb' < MEL_BUFFER_SIZE \<and>
         ww_processFrame (\<lambda>v. v) ?fr ?quiet =
           (if length eb < requiredEmbeddings
            then Inr (False, ?quiet\<lparr>melBuffer := mb', embeddingBuffer := eb\<rparr>)
            else if scores \<noteq> [] \<and> last scores > sensitivity ?quiet
            then Inr (True, ?quiet\<lparr>melBuffer := [], embeddingBuffer := []\<rparr>)
            else Inr (False, ?quiet\<lparr>melBuffer := mb', embeddingBuffer := drop 1 eb\<rparr>))"
    by blast
  from mel' ms have "length melFrames' = 5"
    by (intro len) simp
  with rest' k facts have second:
    "case ww_processFrame (\<lambda>v. v) ?fr ?quiet of
        Inl e \<Rightarrow> False
      | Inr (b, d') \<Rightarrow> \<not> b \<and> length (melBuffer d') = 72 \<and> length (embeddingBuffer d') = 15"
    by (simp add: Let_def requiredEmbeddings_def EMBEDDING_WINDOW_SLIDE_def)
  from r r' f first second show ?thesis
    by simp
qed

text \<open>
  Claim C5. With a sensitivity below 0 or above 1 (1.5, say), \<open>create\<close> fails with the
  \<open>WakeWordError\<close> of the constructor, and the log of file checks and session loads is
  empty: no model file was looked for and no session was created before the failure.
\<close>

theorem create_rejects_invalid_sensitivity:
  assumes "sensitivity_opt options = Some s" "s < 0 \<or> 1 < s"
  shows "ww_create env options
     = ([], Inl (WakeWordError ''Sensitivity must be between 0.0 and 1.0''))"
  using assms
  by (auto simp: ww_create_def ww_constructor_def nullish_def Let_def)

text \<open>
  An instance: sensitivity 1.5 in an environment where every model file exists and
  loads.
\<close>

theorem create_rejects_invalid_sensitivity_witness:
  "((1.5 :: real) < 0 \<or> 1 < (1.5 :: real))
   \<and> ww_create sample_environment
        \<lparr>modelPath_opt = None, wakeWord_opt = None, sensitivity_opt = Some 1.5\<rparr>
     = ([], Inl (WakeWordError ''Sensitivity must be between 0.0 and 1.0''))"
proof -
  have h: "(1.5 :: real) < 0 \<or> 1 < (1.5 :: real)"
    by simp
  from create_rejects_invalid_sensitivity [OF _ h, of _ sample_environment] h show ?thesis
    by simp
qed

text \<open>
  With a sensitivity the constructor accepts, \<open>create\<close> does reach the file checks.
\<close>

lemma create_valid_sensitivity_checks:
  assumes "sensitivity_opt options = Some s" "0 \<le> s" "s \<le> 1"
  shows "fst (ww_create env options) \<noteq> []"
  using assms
  by (auto simp: ww_create_def ww_constructor_def ww_initialize_def nullish_def Let_def
      split: sum.splits)

section \<open>Properties of the emulated channel\<close>

lemma next_frame_chunk:
  "position c < length (ch_audioBuffer c) \<Longrightarrow>
   next_frame c = chunk (ch_audioBuffer c) (frameLength c) (position c)"
  by (auto simp: next_frame_def chunk_def Let_def min_def)

lemma length_chunk [simp]: "length (chunk buf F q) = F"
  by (simp add: chunk_def)

lemma emit_step_observing:
  assumes "observing c" "running c" "position c < length (ch_audioBuffer c)"
  shows "emit_step c = ([chunk (ch_audioBuffer c) (frameLength c) (position c)],
                        c\<lparr>position := position c + frameLength c\<rparr>)"
  using assms
  by (auto simp: emit_step_def observing_def Let_def next_frame_chunk)

lemma frames_left:
  "0 < F \<Longrightarrow> i < (L + F - 1) div F \<longleftrightarrow> i * F < (L :: nat)"
proof -
  assume F: "0 < F"
  have "(L + F - 1) div F \<le> i \<longleftrightarrow> (L + F - 1) div F < Suc i"
    by auto
  also have "\<dots> \<longleftrightarrow> L + F - 1 < Suc i * F"
    using F by (simp add: div_less_iff_less_mult)
  also have "\<dots> \<longleftrightarrow> L \<le> i * F"
    using F by auto
  finally show ?thesis
    by auto
qed

lemma emitLoop_from:
  assumes "observing c" "running c" "\<not> released c" "0 < frameLength c"
    and "position c = i * frameLength c"
    and "i \<le> n" "n = (length (ch_audioBuffer c) + frameLength c - 1) div frameLength c"
  shows "emitLoop c out =
     Some (out @ map (\<lambda>j. chunk (ch_audioBuffer c) (frameLength c) (j * frameLength c)) [i..<n],
           c\<lparr>position := n * frameLength c, running := False\<rparr>)"
  using assms
proof (induction "n - i" arbitrary: i c out)
  case 0
  then have "i = n"
    by simp
  with "0.prems" have "\<not> position c < length (ch_audioBuffer c)"
    using frames_left [of "frameLength c" n "length (ch_audioBuffer c)"] by simp
  with \<open>i = n\<close> "0.prems"(5) show ?case
    by (simp add: emitLoop.simps [of c])
next
  case (Suc k)
  then have lt: "i < n"
    by simp
  with Suc.prems have more: "position c < length (ch_audioBuffer c)"
    using frames_left [of "frameLength c" i "length (ch_audioBuffer c)"] by simp
  let ?c' = "c\<lparr>position := position c + frameLength c\<rparr>"
  from emit_step_observing [OF Suc.prems(1,2) more]
  have step: "emit_step c = ([chunk (ch_audioBuffer c) (frameLength c) (position c)], ?c')" .
  have "emitLoop ?c' (out @ [chunk (ch_audioBuffer c) (frameLength c) (position c)]) =
     Some ((out @ [chunk (ch_audioBuffer c) (frameLength c) (position c)])
            @ map (\<lambda>j. chunk (ch_audioBuffer ?c') (frameLength ?c') (j * frameLength ?c')) [Suc i..<n],
           ?c'\<lparr>position := n * frameLength ?c', running := False\<rparr>)"
  proof (rule Suc.hyps(1))
    show "k = n - Suc i" using Suc.hyps(2) by simp
    show "observing ?c'" using Suc.prems(1) by (simp add: observing_def)
    show "position ?c' = Suc i * frameLength ?c'" using Suc.prems(5) by simp
    show "Suc i \<le> n" using lt by simp
  qed (use Suc.prems in simp_all)
  with step more Suc.prems(2,3,5) lt show ?case
    by (simp add: emitLoop.simps [of c] upt_conv_Cons)
qed

lemma ceil_nat_div:
  assumes "0 < F"
  shows "nat \<lceil>real L / real F\<rceil> = (L + F - 1) div F"
proof -
  define n where "n = (L + F - 1) div F"
  from frames_left [OF assms, of n L] have up: "L \<le> n * F"
    by (simp add: n_def)
  have low: "real n - 1 < real L / real F"
  proof (cases n)
    case 0
    have "0 \<le> real L / real F"
      by simp
    with 0 show ?thesis
      by linarith
  next
    case (Suc m)
    with frames_left [OF assms, of m L] have "m * F < L"
      by (simp add: n_def)
    then have "real m * real F < real L"
      by (metis of_nat_less_iff of_nat_mult)
    with assms Suc show ?thesis
      by (simp add: pos_less_divide_eq)
  qed
  from up have "real L \<le> real n * real F"
    by (metis of_nat_le_iff of_nat_mult)
  with assms have "real L / real F \<le> real n"
    by (simp add: pos_divide_le_eq)
  with low have "\<lceil>real L / real F\<rceil> = int n"
    by (intro ceiling_unique) simp_all
  then show ?thesis
    by (simp add: n_def)
qed

lemma ceil_not_dvd:
  assumes "0 < F" "\<not> F dvd L"
  shows "(L + F - 1) div F = Suc (L div F)"
proof -
  from assms have m: "0 < L mod F"
    by (simp add: dvd_eq_mod_eq_0)
  have l: "L = L div F * F + L mod F"
    by simp
  have "L div F < (L + F - 1) div F"
    using frames_left [OF assms(1), of "L div F" L] m l
    by (metis less_add_same_cancel1)
  moreover have "\<not> Suc (L div F) < (L + F - 1) div F"
    using frames_left [OF assms(1), of "Suc (L div F)" L] assms(1)
    by (metis dividend_less_div_times mult.commute mult_Suc not_less_iff_gr_or_eq)
  ultimately show ?thesis
    by simp
qed

lemma chunk_full:
  "q + F \<le> length buf \<Longrightarrow> chunk buf F q = take F (drop q buf)"
  by (simp add: chunk_def)

lemma chunk_tail:
  assumes "length buf - q < F"
  shows "chunk buf F q = drop q buf @ replicate (F - (length buf - q)) 0"
  using assms by (simp add: chunk_def)

text \<open>
  Claim C7. A channel that is neither running nor released, with its cursor at 0 (as
  constructed), a callback that only observes, and a buffer whose length \<open>L\<close> is not a
  multiple of the frame length \<open>F > 0\<close>. \<open>start\<close> hands the callback exactly
  \<open>ceil (L / F)\<close> frames (\<open>getTotalFrames\<close>), each of \<open>F\<close> samples: frame \<open>i\<close>, for
  \<open>i < L div F\<close>, is the \<open>i\<close>-th slice of \<open>F\<close> samples, and the last frame is the remaining
  \<open>L mod F\<close> samples followed by zeros. The emission comes to an end, and the channel is
  then no longer running.
\<close>

theorem emits_ceil_frames:
  assumes "observing c" "\<not> running c" "\<not> released c" "position c = 0"
    and "0 < frameLength c" "\<not> frameLength c dvd length (ch_audioBuffer c)"
  shows "\<exists>frames c'. ch_start c = Some (Inr (frames, c'))
     \<and> length frames = getTotalFrames c
     \<and> (\<forall>fr \<in> set frames. length fr = frameLength c)
     \<and> (\<forall>i < length (ch_audioBuffer c) div frameLength c.
           frames ! i = take (frameLength c) (drop (i * frameLength c) (ch_audioBuffer c)))
     \<and> last frames =
           drop (frameLength c * (length (ch_audioBuffer c) div frameLength c)) (ch_audioBuffer c)
           @ replicate (frameLength c - length (ch_audioBuffer c) mod frameLength c) 0
     \<and> \<not> running c' \<and> position c' \<ge> length (ch_audioBuffer c)"
proof -
  define F where "F = frameLength c"
  define buf where "buf = ch_audioBuffer c"
  define L where "L = length buf"
  define n where "n = (L + F - 1) div F"
  define frames where "frames = map (\<lambda>j. chunk buf F (j * F)) [0..<n]"
  from assms(5,6) have F: "0 < F" and nd: "\<not> F dvd L"
    by (simp_all add: F_def L_def buf_def)
  from nd have "L \<noteq> 0"
    by (cases "L = 0") simp_all
  have n: "n = Suc (L div F)"
    unfolding n_def using F nd by (rule ceil_not_dvd)
  let ?c1 = "c\<lparr>running := True\<rparr>"
  have "emitLoop ?c1 [] =
     Some ([] @ map (\<lambda>j. chunk (ch_audioBuffer ?c1) (frameLength ?c1) (j * frameLength ?c1)) [0..<n],
           ?c1\<lparr>position := n * frameLength ?c1, running := False\<rparr>)"
    using assms by (intro emitLoop_from) (simp_all add: observing_def n_def L_def buf_def F_def)
  then have loop: "emitLoop ?c1 [] = Some (frames, ?c1\<lparr>position := n * F, running := False\<rparr>)"
    by (simp add: frames_def F_def buf_def)
  from assms(2,3) \<open>L \<noteq> 0\<close> loop
  have start: "ch_start c = Some (Inr (frames, ?c1\<lparr>position := n * F, running := False\<rparr>))"
    by (simp add: ch_start_def L_def buf_def)
  have len: "length frames = getTotalFrames c"
    using ceil_nat_div [OF F, of L]
    by (simp add: frames_def getTotalFrames_def n_def F_def L_def buf_def)
  have each: "\<forall>fr \<in> set frames. length fr = F"
    by (auto simp: frames_def)
  have full: "frames ! i = take F (drop (i * F) buf)" if "i < L div F" for i
  proof -
    from that have "Suc i \<le> L div F"
      by simp
    then have "Suc i * F \<le> L div F * F"
      by (rule mult_le_mono1)
    also have "\<dots> \<le> L"
      by simp
    finally have "i * F + F \<le> length buf"
      by (simp add: L_def)
    moreover from that n have "frames ! i = chunk buf F (i * F)"
      unfolding frames_def by (simp del: upt_Suc)
    ultimately show ?thesis
      by (simp add: chunk_full)
  qed
  have "last frames = chunk buf F (L div F * F)"
    by (simp add: frames_def n)
  also have "\<dots> = drop (L div F * F) buf @ replicate (F - (length buf - L div F * F)) 0"
  proof (rule chunk_tail)
    have "L - L div F * F = L mod F"
      by (simp add: minus_div_mult_eq_mod)
    with F show "length buf - L div F * F < F"
      by (simp add: L_def)
  qed
  also have "length buf - L div F * F = L mod F"
    by (simp add: L_def minus_div_mult_eq_mod)
  finally have lastf: "last frames = drop (F * (L div F)) buf @ replicate (F - L mod F) 0"
    by (simp add: mult.commute)
  have "L \<le> n * F"
    using frames_left [OF F, of n L] by (simp add: n_def)
  with start len each full lastf show ?thesis
    by (simp add: F_def [symmetric] buf_def [symmetric] L_def [symmetric])
qed

text \<open>
  A channel fresh from the constructor, with a callback registered, meets the
  conditions on the state.
\<close>

lemma constructed_channel:
  "\<not> running (onFrame cb (ch_constructor options))"
  "\<not> released (onFrame cb (ch_constructor options))"
  "position (onFrame cb (ch_constructor options)) = 0"
  "(\<And>fr. cb fr = []) \<Longrightarrow> observing (onFrame cb (ch_constructor options))"
  by (simp_all add: onFrame_def ch_constructor_def observing_def)

text \<open>
  An instance: 600 samples in frames of 512 give two frames, the second with 88 samples
  and 424 zeros.
\<close>

theorem emits_ceil_frames_witness:
  "observing padded_example \<and> \<not> running padded_example \<and> \<not> released padded_example
   \<and> position padded_example = 0 \<and> frameLength padded_example = 512
   \<and> length (ch_audioBuffer padded_example) = 600
   \<and> (\<exists>frames c'. ch_start padded_example = Some (Inr (frames, c'))
        \<and> length frames = 2 \<and> frames ! 0 = replicate 512 1000
        \<and> last frames = replicate 88 1000 @ replicate 424 0 \<and> \<not> running c')"
proof -
  have o: "observing padded_example" and r: "\<not> running padded_example"
    and rl: "\<not> released padded_example" and p: "position padded_example = 0"
    unfolding padded_example_def by (simp_all add: constructed_channel)
  have f: "frameLength padded_example = 512" and b: "ch_audioBuffer padded_example = replicate 600 1000"
    by (simp_all add: padded_example_def onFrame_def ch_constructor_def nullish_def
        AUDIO_FORMAT_FRAME_LENGTH_def)
  have pos: "0 < frameLength padded_example"
    and nd: "\<not> frameLength padded_example dvd length (ch_audioBuffer padded_example)"
    by (simp_all add: f b)
  have t: "getTotalFrames padded_example = 2"
    by (simp add: getTotalFrames_def f b)
  from emits_ceil_frames [OF o r rl p pos nd]
  obtain frames c' where s: "ch_start padded_example = Some (Inr (frames, c'))"
    and l: "length frames = getTotalFrames padded_example"
    and full: "\<forall>i < length (ch_audioBuffer padded_example) div frameLength padded_example.
           frames ! i = take (frameLength padded_example)
              (drop (i * frameLength padded_example) (ch_audioBuffer padded_example))"
    and la: "last frames =
           drop (frameLength padded_example
                  * (length (ch_audioBuffer padded_example) div frameLength padded_example))
             (ch_audioBuffer padded_example)
           @ replicate (frameLength padded_example
                - length (ch_audioBuffer padded_example) mod frameLength padded_example) 0"
    and nr: "\<not> running c'"
    by blast
  from full have "frames ! 0 = replicate 512 1000"
    by (simp add: f b)
  moreover from la have "last frames = replicate 88 1000 @ replicate 424 0"
    by (simp add: f b)
  ultimately show ?thesis
    using o r rl p f b s l t nr by auto
qed

text \<open>
  What holds of a second call. \<open>stop\<close> and \<open>release\<close> of the emulated channel contain no
  statement that throws and leave, called again, the state the first call left. The voice
  activity detector's \<open>release\<close> catches what \<open>pause\<close> throws (\<open>p1\<close> and \<open>p2\<close>, the
  outcomes of \<open>pause\<close>, are arbitrary). The wake word detector's \<open>release\<close>, once a call
  of it has completed, is a no-operation that returns normally whatever the sessions
  would answer.
\<close>

lemma shutdown_repeatable:
  "ch_stop (ch_stop c) = ch_stop c \<and> \<not> running (ch_stop c)
   \<and> ch_release (ch_release c) = ch_release c \<and> released (ch_release c)
   \<and> vad_release p2 (vad_release p1 d) = vad_release p1 d \<and> isReleased (vad_release p1 d)"
  by (simp add: ch_stop_def ch_release_def vad_release_def Let_def)

lemma ww_release_normal:
  "ww_release None None None w
     = (None, if ww_isReleased w then w
              else w\<lparr>melSession := None, embeddingSession := None, wakeWordSession := None,
                     melBuffer := [], embeddingBuffer := [],
                     ww_isReleased := True, ww_isInitialized := False\<rparr>)"
  by (simp add: ww_release_def awaited_def Let_def split: option.splits)

lemma ww_release_completed:
  "fst (ww_release r1 r2 r3 w) = None \<Longrightarrow>
     ww_isReleased (snd (ww_release r1 r2 r3 w))
     \<and> ww_release q1 q2 q3 (snd (ww_release r1 r2 r3 w)) = (None, snd (ww_release r1 r2 r3 w))"
  by (auto simp: ww_release_def awaited_def Let_def split: option.splits if_splits)

lemma ww_release_throws_iff:
  "fst (ww_release r1 r2 r3 w) \<noteq> None \<longleftrightarrow>
     \<not> ww_isReleased w
     \<and> (melSession w \<noteq> None \<and> r1 \<noteq> None
        \<or> embeddingSession w \<noteq> None \<and> r2 \<noteq> None
        \<or> wakeWordSession w \<noteq> None \<and> r3 \<noteq> None)"
  by (auto simp: ww_release_def awaited_def Let_def split: option.splits)

text \<open>
  Claim C9. Calling \<open>release\<close> or \<open>stop\<close> a second time yields the state of calling it
  once, and these calls never throw. For the wake word detector the code does otherwise:
  its \<open>release\<close> awaits \<open>session.release()\<close> of each of its three sessions outside any
  \<open>try\<close> (lines 660 to 671), where the voice activity detector's \<open>release\<close> (lines 397 to
  401 of \<open>vad/index.ts\<close>) and the microphone channel's (lines 433 to 437 of
  \<open>audio/output-devices.ts\<close>) guard the corresponding call. On the sample detector, when the
  embedding session's \<open>release\<close> rejects: \<open>release\<close> rejects with that error; the detector
  is left with its mel session \<open>null\<close>, its other two sessions set and \<open>isReleased\<close> false;
  and a second call, in which the sessions release normally, changes the state again, to
  released. So the call throws, and calling it twice does not yield the state of calling
  it once.
\<close>

theorem ww_release_rejecting_session:
  "ww_release None (Some (ExternalError ''release failed'')) None sample_detector
     = (Some (ExternalError ''release failed''), sample_detector\<lparr>melSession := None\<rparr>)
   \<and> \<not> ww_isReleased (snd (ww_release None (Some (ExternalError ''release failed'')) None
                                  sample_detector))
   \<and> ww_release None None None
        (snd (ww_release None (Some (ExternalError ''release failed'')) None sample_detector))
     = (None, sample_detector\<lparr>melSession := None, embeddingSession := None,
                wakeWordSession := None, melBuffer := [], embeddingBuffer := [],
                ww_isReleased := True, ww_isInitialized := False\<rparr>)
   \<and> snd (ww_release None None None
        (snd (ww_release None (Some (ExternalError ''release failed'')) None sample_detector)))
     \<noteq> snd (ww_release None (Some (ExternalError ''release failed'')) None sample_detector)"
proof -
  let ?e = "ExternalError ''release failed''"
  have first: "ww_release None (Some ?e) None sample_detector
      = (Some ?e, sample_detector\<lparr>melSession := None\<rparr>)"
    by (simp add: ww_release_def awaited_def sample_detector_def Let_def)
  have flag: "\<not> ww_isReleased (sample_detector\<lparr>melSession := None\<rparr>)"
    by (simp add: sample_detector_def)
  have second: "ww_release None None None (sample_detector\<lparr>melSession := None\<rparr>)
      = (None, sample_detector\<lparr>melSession := None, embeddingSession := None,
                wakeWordSession := None, melBuffer := [], embeddingBuffer := [],
                ww_isReleased := True, ww_isInitialized := False\<rparr>)"
    by (simp add: ww_release_def awaited_def sample_detector_def Let_def)
  have differ: "sample_detector\<lparr>melSession := None, embeddingSession := None,
                wakeWordSession := None, melBuffer := [], embeddingBuffer := [],
                ww_isReleased := True, ww_isInitialized := False\<rparr>
      \<noteq> sample_detector\<lparr>melSession := None\<rparr>"
  proof
    assume "sample_detector\<lparr>melSession := None, embeddingSession := None,
                wakeWordSession := None, melBuffer := [], embeddingBuffer := [],
                ww_isReleased := True, ww_isInitialized := False\<rparr>
      = sample_detector\<lparr>melSession := None\<rparr>"
    then have "ww_isReleased (sample_detector\<lparr>melSession := None, embeddingSession := None,
                wakeWordSession := None, melBuffer := [], embeddingBuffer := [],
                ww_isReleased := True, ww_isInitialized := False\<rparr>)
      = ww_isReleased (sample_detector\<lparr>melSession := None\<rparr>)"
      by (rule arg_cong)
    then show False
      by (simp add: sample_detector_def)
  qed
  show ?thesis
    unfolding first snd_conv second
    using flag differ by simp
qed

section \<open>Replaying a recording\<close>

lemma fire_shift:
  "fire (shift_callback k e) (shift_detector k d) = shift_detector k (fire e d)"
  by (cases e) (simp_all add: shift_detector_def)

lemma processAudio_shift:
  "processAudio (map (shift_callback k) evs) (shift_detector k d) = shift_detector k (processAudio evs d)"
  unfolding processAudio_def
  by (induction evs arbitrary: d) (simp_all add: fire_shift)

lemma buffer_frame_shift:
  "buffer_frame (now + k) fr (shift_detector k d) = shift_detector k (buffer_frame now fr d)"
  by (simp add: buffer_frame_def shift_detector_def Let_def)

lemma fire_speech_ok:
  "speech_ok k d \<Longrightarrow> positive_callback k e \<Longrightarrow> speech_ok k (fire e d)"
  by (cases e) (simp_all add: speech_ok_def positive_callback_def)

lemma processAudio_speech_ok:
  "speech_ok k d \<Longrightarrow> list_all (positive_callback k) evs \<Longrightarrow> speech_ok k (processAudio evs d)"
  unfolding processAudio_def
  by (induction evs arbitrary: d) (simp_all add: fire_speech_ok)

lemma buffer_frame_speech_ok:
  "speech_ok k (buffer_frame now fr d) = speech_ok k d"
  by (simp add: speech_ok_def)

lemma shift_detector_fields [simp]:
  "isReleased (shift_detector k d) = isReleased d"
  "isInitialized (shift_detector k d) = isInitialized d"
  "vad (shift_detector k d) = vad d"
  "lastIsSpeech (shift_detector k d) = lastIsSpeech d"
  "lastProbability (shift_detector k d) = lastProbability d"
  "hasDetectedSpeech (shift_detector k d) = hasDetectedSpeech d"
  "audioBuffer (shift_detector k d) = audioBuffer d"
  "maxRecordingDuration (shift_detector k d) = maxRecordingDuration d"
  "minSpeechDuration (shift_detector k d) = minSpeechDuration d"
  "silenceDuration (shift_detector k d) = silenceDuration d"
  by (simp_all add: shift_detector_def)

lemma decide_shift:
  assumes "\<not> isReleased d" "speech_ok k d" "0 < now" "0 < now + k"
    and "recordingStartTime d \<noteq> None"
  shows "\<exists>r d'. decide now d = Inr (r, d') \<and> speech_ok k d'
           \<and> decide (now + k) (shift_detector k d) = Inr (r, shift_detector k d')"
proof -
  obtain t0 where r: "recordingStartTime d = Some t0"
    using assms(5) by auto
  show ?thesis
  proof (cases "speechStartTime d")
    case None
    with assms(1-4) r show ?thesis
      by (cases "silenceStartTime d")
        (simp_all add: decide_def Let_def continue_def finish_live js_time_def speech_ok_def
          shift_detector_def)
  next
    case (Some t)
    with assms(1-4) r show ?thesis
      by (cases "silenceStartTime d")
        (simp_all add: decide_def Let_def continue_def finish_live js_time_def speech_ok_def
          shift_detector_def)
  qed
qed

lemma processFrame_shift:
  assumes "speech_ok k d" "positive_clock k (now, fr, evs)"
  shows "(\<exists>e. processFrame now fr evs d = Inl e
            \<and> processFrame (now + k) fr (map (shift_callback k) evs) (shift_detector k d) = Inl e)
       \<or> (\<exists>r d'. processFrame now fr evs d = Inr (r, d') \<and> speech_ok k d'
            \<and> processFrame (now + k) fr (map (shift_callback k) evs) (shift_detector k d)
                = Inr (r, shift_detector k d'))"
proof (cases "live d")
  case False
  then show ?thesis
    by (auto simp: processFrame_def live_def)
next
  case True
  let ?m = "processAudio evs (buffer_frame now fr d)"
  from assms have pos: "0 < now" "0 < now + k" and evs: "list_all (positive_callback k) evs"
    by (simp_all add: positive_clock_def)
  from True have nr: "\<not> isReleased ?m"
    by (simp add: live_def)
  from assms(1) evs have ok: "speech_ok k ?m"
    by (intro processAudio_speech_ok) (simp_all add: buffer_frame_speech_ok)
  have rs: "recordingStartTime ?m \<noteq> None"
    by simp
  from decide_shift [OF nr ok pos rs]
  obtain r d' where "decide now ?m = Inr (r, d')" "speech_ok k d'"
    "decide (now + k) (shift_detector k ?m) = Inr (r, shift_detector k d')"
    by blast
  moreover from True have "live (shift_detector k d)"
    by (simp add: live_def)
  ultimately show ?thesis
    using True
    by (simp add: processFrame_live processAudio_shift buffer_frame_shift)
qed

lemma trace_shift:
  assumes "speech_ok k d" "list_all (positive_clock k) ins"
  shows "results_of (trace_vad (shift_detector k d) (map (shift_input k) ins))
       = results_of (trace_vad d ins)"
  using assms
proof (induction ins arbitrary: d)
  case Nil
  then show ?case by (simp add: results_of_def)
next
  case (Cons x ins)
  obtain now fr evs where x: "x = (now, fr, evs)"
    by (cases x) auto
  from Cons.prems x have p: "positive_clock k (now, fr, evs)"
    and rest: "list_all (positive_clock k) ins"
    by simp_all
  from processFrame_shift [OF Cons.prems(1) p]
  show ?case
  proof (elim disjE exE conjE)
    fix e
    assume "processFrame now fr evs d = Inl e"
      "processFrame (now + k) fr (map (shift_callback k) evs) (shift_detector k d) = Inl e"
    with x show ?thesis
      by (simp add: results_of_def shift_input_def)
  next
    fix r d'
    assume s: "processFrame now fr evs d = Inr (r, d')" and ok: "speech_ok k d'"
      and s': "processFrame (now + k) fr (map (shift_callback k) evs) (shift_detector k d)
                = Inr (r, shift_detector k d')"
    from Cons.IH [OF ok rest] s s' x show ?thesis
      by (simp add: results_of_def shift_input_def)
  qed
qed

lemma shift_cleared: "cleared d \<Longrightarrow> shift_detector k d = d \<and> speech_ok k d"
  by (simp add: cleared_def shift_detector_def speech_ok_def)

text \<open>
  Claim C8, as the code has it. The claim as stated fails for the segmenter (see the two
  runs that follow the instance below): its results depend on the clock readings of the
  calls, not on the frames alone. They depend on the clock through elapsed time only: two
  runs of a detector with no recording under way, over the same frames and the same
  callbacks of the package, whose clock readings differ by a constant \<open>k\<close>, return the
  same results. The trigger spotter and the emulated channel read no clock:
  \<open>ww_processFrame\<close> and \<open>emitLoop\<close> are functions of the frames and the state alone.
\<close>

theorem results_depend_on_elapsed_time_only:
  assumes "cleared d" "list_all (positive_clock k) ins"
  shows "results_of (trace_vad d (map (shift_input k) ins)) = results_of (trace_vad d ins)"
  using trace_shift [of k d ins] shift_cleared [OF assms(1), of k] assms(2)
  by simp

text \<open>
  An instance: a run that ends in a timeout, and the same run five seconds later.
\<close>

theorem results_depend_on_elapsed_time_only_witness:
  "cleared default_detector
   \<and> list_all (positive_clock 5000)
       [(1000, zero_frame, [FrameProcessed 0.9, SpeechStart 1001]),
        (31001, zero_frame, [FrameProcessed 0.1])]
   \<and> results_of (trace_vad default_detector
        [(6000, zero_frame, [FrameProcessed 0.9, SpeechStart 6001]),
         (36001, zero_frame, [FrameProcessed 0.1])])
     = results_of (trace_vad default_detector
        [(1000, zero_frame, [FrameProcessed 0.9, SpeechStart 1001]),
         (31001, zero_frame, [FrameProcessed 0.1])])"
proof -
  have c: "cleared default_detector"
    by (simp add: cleared_def default_detector_def)
  have p: "list_all (positive_clock 5000)
       [(1000, zero_frame, [FrameProcessed 0.9, SpeechStart 1001]),
        (31001, zero_frame, [FrameProcessed 0.1])]"
    by (simp add: positive_clock_def positive_callback_def)
  from results_depend_on_elapsed_time_only [OF c p] c p show ?thesis
    by (simp add: shift_input_def del: trace_vad.simps)
qed

text \<open>
  The claim as stated, refuted. The same twelve frames with the same probabilities
  through the default detector: delivered 96 ms apart, the twelfth returns \<open>end\<close>;
  delivered 1 ms apart, as a fast replay may, every frame returns \<open>continue\<close>.
\<close>

theorem replay_depends_on_clock:
  "map result_status
       (trace_vad default_detector
          [(1000, zero_frame, [FrameProcessed 0.9, SpeechStart 1000]),
           (1096, zero_frame, [FrameProcessed 0.9]),
           (1192, zero_frame, [FrameProcessed 0.9]),
           (1288, zero_frame, [FrameProcessed 0.1]),
           (1384, zero_frame, [FrameProcessed 0.1]),
           (1480, zero_frame, [FrameProcessed 0.1]),
           (1576, zero_frame, [FrameProcessed 0.1]),
           (1672, zero_frame, [FrameProcessed 0.1]),
           (1768, zero_frame, [FrameProcessed 0.1]),
           (1864, zero_frame, [FrameProcessed 0.1]),
           (1960, zero_frame, [FrameProcessed 0.1]),
           (2056, zero_frame, [FrameProcessed 0.1])])
     = [Some Continue, Some Continue, Some Continue, Some Continue, Some Continue,
        Some Continue, Some Continue, Some Continue, Some Continue, Some Continue,
        Some Continue, Some End]
   \<and> map result_status
       (trace_vad default_detector
          [(1000, zero_frame, [FrameProcessed 0.9, SpeechStart 1000]),
           (1001, zero_frame, [FrameProcessed 0.9]),
           (1002, zero_frame, [FrameProcessed 0.9]),
           (1003, zero_frame, [FrameProcessed 0.1]),
           (1004, zero_frame, [FrameProcessed 0.1]),
           (1005, zero_frame, [FrameProcessed 0.1]),
           (1006, zero_frame, [FrameProcessed 0.1]),
           (1007, zero_frame, [FrameProcessed 0.1]),
           (1008, zero_frame, [FrameProcessed 0.1]),
           (1009, zero_frame, [FrameProcessed 0.1]),
           (1010, zero_frame, [FrameProcessed 0.1]),
           (1011, zero_frame, [FrameProcessed 0.1])])
     = [Some Continue, Some Continue, Some Continue, Some Continue, Some Continue,
        Some Continue, Some Continue, Some Continue, Some Continue, Some Continue,
        Some Continue, Some Continue]"
  by (simp add: vad_eval)

end
